theory Spec2Isabelle
  imports Complex_Main "HOL-Library.Sublist" "HOL-Library.Multiset" "HOL-Library.Log_Nat"
begin

section \<open>Values of the Go program\<close>

text \<open>
  Go's \<open>int\<close> and \<open>int64\<close> are modelled by \<open>int\<close>: the analyzer only compares
  these numbers, prints them, converts them to \<open>float64\<close> and counts up to the length
  of a slice, so no operation on them can leave the 64-bit range. Where a property
  depends on the range, as the conversion to \<open>float64\<close> does, the range is a hypothesis.

  A \<open>float64\<close> is \<open>Finite r\<close>, holding its exact value \<open>r\<close>, or one of the
  three special values. Comparison and printing are exact on these values. Conversion
  from an integer, division and multiplication round their exact result to the nearest
  binary64 number, a tie going to the even significand, as IEEE 754 and Go do. The
  sign of zero is not modelled. Division by zero does not fail in Go; it gives an
  infinity or NaN, as it does here.
\<close>

datatype float64 = Finite real | PosInf | NegInf | NaN

text \<open>
  Rounding to the nearest integer, a tie going to the even neighbour: how binary64
  arithmetic rounds a significand, and how \<open>strconv\<close> rounds the decimal expansion of
  a \<open>float64\<close>.
\<close>

definition roundHalfEven :: "real \<Rightarrow> int" where
  "roundHalfEven x =
     (let f = \<lfloor>x\<rfloor>; d = x - of_int f
      in if d < 1 / 2 then f else if 1 / 2 < d then f + 1
         else if even f then f else f + 1)"

text \<open>
  The binary exponent of a positive number: the \<open>e\<close> with \<open>2 ^ e \<le> x < 2 ^ (e + 1)\<close>,
  from the number of binary digits of the integer part of \<open>x\<close>, or of \<open>1 / x\<close> when
  \<open>x\<close> is below one.
\<close>

definition binade :: "real \<Rightarrow> int" where
  "binade x = (if 1 \<le> x then bitlen \<lfloor>x\<rfloor> - 1 else - bitlen (\<lceil>1 / x\<rceil> - 1))"

text \<open>
  Rounding a real number to binary64. The significand has 53 binary digits, so the
  distance between neighbours is \<open>2 ^ (e - 52)\<close> at the exponent \<open>e\<close>, and the exponent
  is at least \<open>-1022\<close> (below that the numbers are subnormal). A result of
  \<open>2 ^ 1024\<close> or more is an infinity.
\<close>

definition round64 :: "real \<Rightarrow> float64" where
  "round64 x =
     (if x = 0 then Finite 0
      else
        let e = max (binade \<bar>x\<bar>) (- 1022);
            ulp = 2 powi (e - 52);
            r = of_int (roundHalfEven (\<bar>x\<bar> / ulp)) * ulp
        in if 2 ^ 1024 \<le> r then (if x < 0 then NegInf else PosInf)
           else Finite (if x < 0 then - r else r))"

text \<open>\<open>float64(n)\<close> for an integer \<open>n\<close>.\<close>

definition float64_of_int :: "int \<Rightarrow> float64" where
  "float64_of_int n = round64 (of_int n)"

text \<open>\<open>x > y\<close> on \<open>float64\<close>: false as soon as one side is NaN.\<close>

fun fgt :: "float64 \<Rightarrow> float64 \<Rightarrow> bool" where
  "fgt NaN y = False"
| "fgt x NaN = False"
| "fgt (Finite a) (Finite b) = (b < a)"
| "fgt PosInf PosInf = False"
| "fgt PosInf y = True"
| "fgt x PosInf = False"
| "fgt NegInf y = False"
| "fgt (Finite a) NegInf = True"

text \<open>\<open>x / y\<close> on \<open>float64\<close>.\<close>

fun fdiv :: "float64 \<Rightarrow> float64 \<Rightarrow> float64" where
  "fdiv NaN y = NaN"
| "fdiv x NaN = NaN"
| "fdiv (Finite a) (Finite b) =
     (if b \<noteq> 0 then round64 (a / b)
      else if a = 0 then NaN else if 0 < a then PosInf else NegInf)"
| "fdiv (Finite a) y = Finite 0"
| "fdiv PosInf (Finite b) = (if b < 0 then NegInf else PosInf)"
| "fdiv NegInf (Finite b) = (if b < 0 then PosInf else NegInf)"
| "fdiv x y = NaN"

text \<open>\<open>x * y\<close> on \<open>float64\<close>.\<close>

fun fmul :: "float64 \<Rightarrow> float64 \<Rightarrow> float64" where
  "fmul NaN y = NaN"
| "fmul x NaN = NaN"
| "fmul (Finite a) (Finite b) = round64 (a * b)"
| "fmul (Finite a) PosInf = (if a = 0 then NaN else if 0 < a then PosInf else NegInf)"
| "fmul (Finite a) NegInf = (if a = 0 then NaN else if 0 < a then NegInf else PosInf)"
| "fmul PosInf (Finite b) = (if b = 0 then NaN else if 0 < b then PosInf else NegInf)"
| "fmul NegInf (Finite b) = (if b = 0 then NaN else if 0 < b then NegInf else PosInf)"
| "fmul PosInf PosInf = PosInf"
| "fmul NegInf NegInf = PosInf"
| "fmul x y = NegInf"

section \<open>Formatting (package fmt)\<close>

text \<open>The decimal digits of a natural number, most significant first.\<close>

fun digits :: "nat \<Rightarrow> string" where
  "digits n =
     (if n < 10 then [''0123456789'' ! n]
      else digits (n div 10) @ [''0123456789'' ! (n mod 10)])"

declare digits.simps [simp del]

text \<open>The verb \<open>%d\<close>.\<close>

definition fmt_d :: "int \<Rightarrow> string" where
  "fmt_d n = (if n < 0 then ''-'' @ digits (nat (- n)) else digits (nat n))"

text \<open>The verb \<open>%v\<close> on a \<open>bool\<close>.\<close>

definition fmt_v :: "bool \<Rightarrow> string" where
  "fmt_v b = (if b then ''true'' else ''false'')"

text \<open>The verbs \<open>%.0f\<close> and \<open>%.2f\<close>: \<open>fmt_f prec x\<close> is \<open>%.<prec>f\<close>.\<close>

definition fmt_f :: "nat \<Rightarrow> float64 \<Rightarrow> string" where
  "fmt_f prec x =
     (case x of
        NaN \<Rightarrow> ''NaN''
      | PosInf \<Rightarrow> ''+Inf''
      | NegInf \<Rightarrow> ''-Inf''
      | Finite r \<Rightarrow>
          (let q = nat (roundHalfEven (\<bar>r\<bar> * 10 ^ prec));
               whole = digits (q div 10 ^ prec);
               frac = digits (q mod 10 ^ prec)
           in (if r < 0 then ''-'' else '''') @ whole @
              (if prec = 0 then ''''
               else ''.'' @ replicate (prec - length frac) (CHR ''0'') @ frac)))"

section \<open>Substring search (package strings)\<close>

text \<open>\<open>strings.Contains(s, substr)\<close>, on the bytes of the strings.\<close>

fun Contains :: "string \<Rightarrow> string \<Rightarrow> bool" where
  "Contains [] substr = (substr = [])"
| "Contains (c # s) substr = (prefix substr (c # s) \<or> Contains s substr)"

section \<open>Sorting (package sort)\<close>

text \<open>
  \<open>sort.Slice(xs, less)\<close> is modelled by the insertion sort that Go runs on a
  slice of at most twelve elements:
  \<^verbatim>\<open>
  for i := a + 1; i < b; i++ {
      for j := i; j > a && data.Less(j, j-1); j-- { data.Swap(j, j-1) }
  }
  \<close>
  \<open>insertionStep\<close> is the inner loop: the new element moves left past every
  element it is less than. Its list argument is the sorted part read from right to
  left, so that the neighbour of the new element comes first. On a longer slice Go
  switches to a pattern-defeating quicksort, whose result can differ from this one
  only in the order of elements of which neither is less than the other.
\<close>

fun insertionStep :: "('a \<Rightarrow> 'a \<Rightarrow> bool) \<Rightarrow> 'a \<Rightarrow> 'a list \<Rightarrow> 'a list" where
  "insertionStep lessFn x [] = [x]"
| "insertionStep lessFn x (y # earlier) =
     (if lessFn x y then y # insertionStep lessFn x earlier else x # y # earlier)"

definition sort_Slice :: "('a \<Rightarrow> 'a \<Rightarrow> bool) \<Rightarrow> 'a list \<Rightarrow> 'a list" where
  "sort_Slice lessFn xs = rev (foldl (\<lambda>acc x. insertionStep lessFn x acc) [] xs)"

section \<open>Data model (types.go)\<close>

datatype CallTree = CallTree
  (FunctionName: string)
  (FileName: string)
  (LineNumber: int)
  (AllocationCount: int)
  (TotalSize: int)
  (SelfSize: int)
  (InclusiveSize: int)
  (Children: "CallTree list")

record Function =
  FunctionName :: string
  FileName :: string
  LineNumber :: int
  AllocationCount :: int
  TotalSize :: int
  AverageSize :: float64
  MinSize :: int
  MaxSize :: int
  Percentage :: float64

record Leak =
  FunctionName :: string
  FileName :: string
  LineNumber :: int
  LeakSize :: int
  LeakCount :: int
  LeakScore :: float64
  CallStack :: string
  IsSuspect :: bool

record PageView =
  Address :: int
  State :: string
  Type :: string
  Protection :: int
  StackId :: int
  Usage :: int
  AllocationCount :: int
  TotalSize :: int
  FunctionName :: string
  CallStack :: string

record AllocType =
  TypeName :: string
  AllocationCount :: int
  TotalSize :: int
  AverageSize :: float64
  MinSize :: int
  MaxSize :: int
  Percentage :: float64
  MostCommonFunction :: string
  MostCommonFile :: string
  MostCommonLine :: int

record MemProData =
  SessionName :: string
  TotalSnapshots :: int
  TotalAllocations :: int
  TotalSize :: int
  LeakCount :: int
  LeakSize :: int
  MemoryFragmentation :: float64
  CallTrees :: "CallTree list"
  Functions :: "Function list"
  Leaks :: "Leak list"
  PageViews :: "PageView list"
  Types :: "AllocType list"

record MemoryIssue =
  Severity :: string
  Type :: string
  Description :: string
  FunctionName :: string
  FileName :: string
  LineNumber :: int
  Size :: int
  Count :: int
  Score :: float64
  Suggestion :: string

text \<open>
  The analyzer holds a pointer to the data, and its methods are called through a
  pointer to the analyzer: each pointer is an \<open>option\<close>, \<open>None\<close> for \<open>nil\<close>.
\<close>

record MemoryAnalyzer =
  data :: "MemProData option"

section \<open>The analyzer (analyzer.go)\<close>

subsection \<open>Leaks\<close>

definition calculateLeakSeverity :: "Leak \<Rightarrow> string" where
  "calculateLeakSeverity leak =
     (if IsSuspect leak \<and> 100000 < Leak.LeakSize leak then ''Critical''
      else if IsSuspect leak \<or> 50000 < Leak.LeakSize leak then ''High''
      else if 10000 < Leak.LeakSize leak \<or> 100 < Leak.LeakCount leak then ''Medium''
      else ''Low'')"

definition formatLeakDescription :: "Leak \<Rightarrow> string" where
  "formatLeakDescription leak =
     (if Contains (Leak.FunctionName leak) ''Unknown Function'' then
        ''Unknown function leaked '' @ fmt_d (Leak.LeakSize leak) @ '' bytes across '' @
        fmt_d (Leak.LeakCount leak) @
        '' allocations. This may indicate missing debug symbols or dynamically loaded code.''
      else
        ''Function leaked '' @ fmt_d (Leak.LeakSize leak) @ '' bytes across '' @
        fmt_d (Leak.LeakCount leak) @ '' allocations'')"

definition generateLeakSuggestion :: "Leak \<Rightarrow> string" where
  "generateLeakSuggestion leak =
     (if Contains (Leak.FunctionName leak) ''Unknown Function'' then
        ''Enable debug symbols and rebuild with full symbol information to identify the exact source of this leak. Check for third-party libraries or dynamically loaded modules.''
      else if Contains (Leak.FunctionName leak) ''std::_Allocate'' \<or>
              Contains (Leak.FunctionName leak) ''std::vector'' then
        ''STL container leak detected. Ensure proper cleanup in destructors, check for circular references, and verify that containers are properly cleared before going out of scope.''
      else if Contains (Leak.FunctionName leak) ''main'' then
        ''Leak originated from main function. Review allocation ownership and ensure all allocated resources are freed before program exit. Consider using RAII or smart pointers.''
      else
        ''Review allocation patterns in this function and ensure all allocated memory is properly deallocated. Consider using smart pointers (std::unique_ptr, std::shared_ptr) or RAII patterns.'')"

text \<open>The issue that the loop of \<open>AnalyzeLeaks\<close> appends for a leak.\<close>

definition leakIssue :: "Leak \<Rightarrow> MemoryIssue" where
  "leakIssue leak =
     \<lparr>Severity = calculateLeakSeverity leak,
      Type = ''MemoryLeak'',
      Description = formatLeakDescription leak,
      FunctionName = Leak.FunctionName leak,
      FileName = Leak.FileName leak,
      LineNumber = Leak.LineNumber leak,
      Size = Leak.LeakSize leak,
      Count = Leak.LeakCount leak,
      Score = LeakScore leak,
      Suggestion = generateLeakSuggestion leak\<rparr>"

text \<open>The loop over \<open>ma.data.Leaks\<close>; \<open>issues\<close> is the slice built so far.\<close>

fun leakLoop :: "Leak list \<Rightarrow> MemoryIssue list \<Rightarrow> MemoryIssue list" where
  "leakLoop [] issues = issues"
| "leakLoop (leak # rest) issues =
     (if Leak.LeakSize leak = 0 \<and> Leak.LeakCount leak = 0 then leakLoop rest issues
      else leakLoop rest (issues @ [leakIssue leak]))"

definition severityOrder :: "string \<rightharpoonup> int" where
  "severityOrder = [''Critical'' \<mapsto> 0, ''High'' \<mapsto> 1, ''Medium'' \<mapsto> 2, ''Low'' \<mapsto> 3]"

text \<open>
  The rank that the comparison gives a severity: the value of the map, and 999 for a
  string that is not a key.
\<close>

definition severityRank :: "string \<Rightarrow> int" where
  "severityRank s = (case severityOrder s of Some v \<Rightarrow> v | None \<Rightarrow> 999)"

text \<open>The comparison passed to \<open>sort.Slice\<close> in \<open>AnalyzeLeaks\<close>.\<close>

definition issueLess :: "MemoryIssue \<Rightarrow> MemoryIssue \<Rightarrow> bool" where
  "issueLess a b =
     (let orderI = severityRank (Severity a); orderJ = severityRank (Severity b)
      in if orderI \<noteq> orderJ then orderI < orderJ else Size b < Size a)"

definition AnalyzeLeaks :: "MemoryAnalyzer option \<Rightarrow> MemoryIssue list" where
  "AnalyzeLeaks ma =
     (case ma of
        None \<Rightarrow> []
      | Some a \<Rightarrow>
          (case data a of
             None \<Rightarrow> []
           | Some d \<Rightarrow> sort_Slice issueLess (leakLoop (Leaks d) [])))"

subsection \<open>Fragmentation\<close>

definition AnalyzeFragmentation :: "MemoryAnalyzer option \<Rightarrow> MemoryIssue list" where
  "AnalyzeFragmentation ma =
     (case ma of
        None \<Rightarrow> []
      | Some a \<Rightarrow>
          (case data a of
             None \<Rightarrow> []
           | Some d \<Rightarrow>
               if fgt (MemoryFragmentation d) (Finite 80) then
                 [\<lparr>Severity = ''High'',
                   Type = ''MemoryFragmentation'',
                   Description = ''Memory fragmentation is at '' @
                     fmt_f 2 (MemoryFragmentation d) @
                     ''%, which indicates severe fragmentation'',
                   FunctionName = [],
                   FileName = [],
                   LineNumber = 0,
                   Size = MemProData.TotalSize d,
                   Count = TotalAllocations d,
                   Score = MemoryFragmentation d,
                   Suggestion = ''Consider implementing object pooling or using memory arenas to reduce fragmentation. Review allocation patterns and consolidate small allocations where possible.''\<rparr>]
               else if fgt (MemoryFragmentation d) (Finite 50) then
                 [\<lparr>Severity = ''Medium'',
                   Type = ''MemoryFragmentation'',
                   Description = ''Memory fragmentation is at '' @
                     fmt_f 2 (MemoryFragmentation d) @
                     ''%, which may impact performance'',
                   FunctionName = [],
                   FileName = [],
                   LineNumber = 0,
                   Size = MemProData.TotalSize d,
                   Count = TotalAllocations d,
                   Score = MemoryFragmentation d,
                   Suggestion = ''Monitor fragmentation levels and consider optimizing allocation patterns if fragmentation increases.''\<rparr>]
               else []))"

subsection \<open>Large allocations\<close>

text \<open>The issue that the loop of \<open>AnalyzeLargeAllocations\<close> appends for a function.\<close>

definition largeAllocationIssue :: "Function \<Rightarrow> MemoryIssue" where
  "largeAllocationIssue fn =
     \<lparr>Severity = (if 100000 < Function.MaxSize fn then ''High'' else ''Medium''),
      Type = ''LargeAllocation'',
      Description = ''Large allocation detected: average '' @
        fmt_f 0 (Function.AverageSize fn) @ '' bytes, max '' @
        fmt_d (Function.MaxSize fn) @ '' bytes across '' @
        fmt_d (Function.AllocationCount fn) @ '' allocations'',
      FunctionName = Function.FunctionName fn,
      FileName = Function.FileName fn,
      LineNumber = Function.LineNumber fn,
      Size = Function.TotalSize fn,
      Count = Function.AllocationCount fn,
      Score = float64_of_int (Function.MaxSize fn),
      Suggestion = ''Review if large allocations can be split into smaller chunks or allocated incrementally. Consider using streaming or chunked processing for large data.''\<rparr>"

text \<open>The loop over \<open>ma.data.Functions\<close>; \<open>issues\<close> is the slice built so far.\<close>

fun largeAllocationLoop :: "Function list \<Rightarrow> MemoryIssue list \<Rightarrow> MemoryIssue list" where
  "largeAllocationLoop [] issues = issues"
| "largeAllocationLoop (fn # rest) issues =
     (if fgt (Function.AverageSize fn) (Finite 10000) \<or> 50000 < Function.MaxSize fn
      then largeAllocationLoop rest (issues @ [largeAllocationIssue fn])
      else largeAllocationLoop rest issues)"

definition AnalyzeLargeAllocations :: "MemoryAnalyzer option \<Rightarrow> MemoryIssue list" where
  "AnalyzeLargeAllocations ma =
     (case ma of
        None \<Rightarrow> []
      | Some a \<Rightarrow>
          (case data a of
             None \<Rightarrow> []
           | Some d \<Rightarrow> largeAllocationLoop (Functions d) []))"

subsection \<open>Summary\<close>

text \<open>The local variable \<open>leakPercentage\<close> of \<open>GetSummary\<close>.\<close>

definition leakPercentage :: "MemProData \<Rightarrow> float64" where
  "leakPercentage d =
     (if 0 < MemProData.TotalSize d then
        fmul (fdiv (float64_of_int (MemProData.LeakSize d))
                   (float64_of_int (MemProData.TotalSize d)))
             (Finite 100)
      else Finite 0)"

text \<open>The loop that counts the suspect leaks; \<open>suspectLeaks\<close> is the counter.\<close>

fun countSuspectLeaks :: "Leak list \<Rightarrow> int \<Rightarrow> int" where
  "countSuspectLeaks [] suspectLeaks = suspectLeaks"
| "countSuspectLeaks (leak # rest) suspectLeaks =
     countSuspectLeaks rest (if IsSuspect leak then suspectLeaks + 1 else suspectLeaks)"

definition GetSummary :: "MemoryAnalyzer option \<Rightarrow> string" where
  "GetSummary ma =
     (case ma of
        None \<Rightarrow> ''Error: No data available for analysis''
      | Some a \<Rightarrow>
          (case data a of
             None \<Rightarrow> ''Error: No data available for analysis''
           | Some d \<Rightarrow>
               ''Memory Analysis Summary\<newline>'' @
               ''======================\<newline>'' @
               ''Session: '' @ SessionName d @ ''\<newline>'' @
               ''Total Allocations: '' @ fmt_d (TotalAllocations d) @ ''\<newline>'' @
               ''Total Size: '' @ fmt_d (MemProData.TotalSize d) @ '' bytes ('' @
                 fmt_f 2 (fdiv (fdiv (float64_of_int (MemProData.TotalSize d)) (Finite 1024))
                    (Finite 1024)) @ '' MB)\<newline>'' @
               ''Leak Count: '' @ fmt_d (MemProData.LeakCount d) @ ''\<newline>'' @
               ''Leak Size: '' @ fmt_d (MemProData.LeakSize d) @ '' bytes ('' @
                 fmt_f 2 (fdiv (fdiv (float64_of_int (MemProData.LeakSize d)) (Finite 1024))
                    (Finite 1024)) @ '' MB)\<newline>'' @
               ''Leak Percentage: '' @ fmt_f 2 (leakPercentage d) @ ''%\<newline>'' @
               ''Memory Fragmentation: '' @ fmt_f 2 (MemoryFragmentation d) @ ''%\<newline>'' @
               ''\<newline>'' @
               ''Critical Findings:\<newline>'' @
               (if fgt (leakPercentage d) (Finite 50)
                then ''- CRITICAL: Over 50% of allocated memory is leaked!\<newline>'' else []) @
               (if fgt (MemoryFragmentation d) (Finite 80)
                then ''- HIGH: Severe memory fragmentation detected\<newline>'' else []) @
               (if 0 < countSuspectLeaks (Leaks d) 0
                then ''- '' @ fmt_d (countSuspectLeaks (Leaks d) 0) @
                     '' suspect leak locations identified\<newline>''
                else [])))"

subsection \<open>Top leakers\<close>

text \<open>The comparison passed to \<open>sort.Slice\<close> in \<open>GetTopLeakers\<close>.\<close>

definition leakLess :: "Leak \<Rightarrow> Leak \<Rightarrow> bool" where
  "leakLess a b = (Leak.LeakSize b < Leak.LeakSize a)"

text \<open>What one round of the loop of \<open>GetTopLeakers\<close> writes, for the index \<open>i\<close>.\<close>

definition writeLeaker :: "int \<Rightarrow> Leak \<Rightarrow> string" where
  "writeLeaker i leak =
     fmt_d (i + 1) @ ''. '' @ Leak.FunctionName leak @ ''\<newline>'' @
     ''   Leak Size: '' @ fmt_d (Leak.LeakSize leak) @ '' bytes ('' @
       fmt_f 2 (fdiv (float64_of_int (Leak.LeakSize leak)) (Finite 1024)) @
       '' KB)\<newline>'' @
     ''   Leak Count: '' @ fmt_d (Leak.LeakCount leak) @ '' allocations\<newline>'' @
     ''   Leak Score: '' @ fmt_f 2 (LeakScore leak) @ ''\<newline>'' @
     ''   Suspect: '' @ fmt_v (IsSuspect leak) @ ''\<newline>'' @
     (if Leak.FileName leak \<noteq> []
      then ''   Location: '' @ Leak.FileName leak @ '':'' @ fmt_d (Leak.LineNumber leak) @
           ''\<newline>''
      else []) @
     (if Leak.CallStack leak \<noteq> []
      then ''   CallStack: '' @ Leak.CallStack leak @ ''\<newline>''
      else []) @
     ''\<newline>''"

text \<open>
  The loop \<open>for i := 0; i < n; i++\<close>; \<open>result\<close> is the text written so far. Reading
  \<open>leaks[i]\<close> outside the slice is a run-time panic of Go: the result \<open>None\<close>.
\<close>

function writeLeakers :: "Leak list \<Rightarrow> int \<Rightarrow> int \<Rightarrow> string \<Rightarrow> string option" where
  "writeLeakers leaks i n result =
     (if i < n then
        (if 0 \<le> i \<and> i < int (length leaks)
         then writeLeakers leaks (i + 1) n (result @ writeLeaker i (leaks ! nat i))
         else None)
      else Some result)"
  by pat_completeness auto
termination
  by (relation "measure (\<lambda>(leaks, i, n, result). nat (n - i))") auto

declare writeLeakers.simps [simp del]

text \<open>\<open>GetTopLeakers\<close> returns \<open>Some\<close> of its string, or \<open>None\<close> if it panics.\<close>

definition GetTopLeakers :: "MemoryAnalyzer option \<Rightarrow> int \<Rightarrow> string option" where
  "GetTopLeakers ma n =
     (case ma of
        None \<Rightarrow> Some ''Error: No data available for analysis''
      | Some a \<Rightarrow>
          (case data a of
             None \<Rightarrow> Some ''Error: No data available for analysis''
           | Some d \<Rightarrow>
               (let leaks = sort_Slice leakLess (Leaks d);
                    m = (if int (length leaks) < n then int (length leaks) else n)
                in writeLeakers leaks 0 m
                     (''Top '' @ fmt_d m @ '' Memory Leakers:\<newline>'' @
                      ''====================\<newline>\<newline>''))))"

subsection \<open>Zero values\<close>

text \<open>
  The values that \<open>json.Unmarshal\<close> leaves where the document has no field: a leak,
  a function and a snapshot with every field zero.
\<close>

definition zeroLeak :: Leak where
  "zeroLeak =
     \<lparr>Leak.FunctionName = [], Leak.FileName = [], Leak.LineNumber = 0, LeakSize = 0,
      LeakCount = 0, LeakScore = Finite 0, CallStack = [], IsSuspect = False\<rparr>"

definition zeroFunction :: Function where
  "zeroFunction =
     \<lparr>Function.FunctionName = [], Function.FileName = [], Function.LineNumber = 0,
      Function.AllocationCount = 0, Function.TotalSize = 0, Function.AverageSize = Finite 0,
      Function.MinSize = 0, Function.MaxSize = 0, Function.Percentage = Finite 0\<rparr>"

definition zeroData :: MemProData where
  "zeroData =
     \<lparr>SessionName = [], TotalSnapshots = 0, TotalAllocations = 0, TotalSize = 0,
      LeakCount = 0, LeakSize = 0, MemoryFragmentation = Finite 0, CallTrees = [],
      Functions = [], Leaks = [], PageViews = [], Types = []\<rparr>"

section \<open>Properties of the rounding to binary64\<close>

text \<open>
  \<open>binade\<close> finds the binary exponent, and \<open>round64\<close> returns a finite number within
  the fraction \<open>2 ^ -53\<close> of its argument, when the argument is zero or in the range of
  the normal numbers.
\<close>

lemma roundHalfEven_close: "\<bar>real_of_int (roundHalfEven y) - y\<bar> \<le> 1 / 2"
proof -
  have "real_of_int \<lfloor>y\<rfloor> \<le> y" "y < real_of_int \<lfloor>y\<rfloor> + 1" by linarith+
  then show ?thesis by (auto simp: roundHalfEven_def Let_def)
qed

lemma binade_bounds:
  assumes "0 < x"
  shows "2 powi (binade x) \<le> x \<and> x < 2 powi (binade x + 1)"
proof (cases "1 \<le> x")
  case True
  define n where "n = \<lfloor>x\<rfloor>"
  have n: "0 < n" using True by (simp add: n_def)
  have b1: "1 \<le> bitlen n" using n by (simp add: bitlen_alt_def)
  have bnd: "2 ^ nat (bitlen n - 1) \<le> n" "n < 2 ^ nat (bitlen n)"
    using bitlen_bounds [OF n] by simp_all
  have e: "binade x = bitlen n - 1" using True by (simp add: binade_def n_def)
  have "(2::real) powi (bitlen n - 1) = 2 ^ nat (bitlen n - 1)"
    using b1 by (simp add: power_int_nonneg_exp)
  also have "\<dots> \<le> real_of_int n" using bnd(1) by (metis of_int_le_iff of_int_numeral of_int_power)
  also have "\<dots> \<le> x" by (simp add: n_def)
  finally have lo: "2 powi (binade x) \<le> x" by (simp add: e)
  have "n + 1 \<le> 2 ^ nat (bitlen n)" using bnd(2) by simp
  then have "real_of_int (n + 1) \<le> 2 ^ nat (bitlen n)"
    by (metis of_int_le_iff of_int_numeral of_int_power)
  moreover have "x < real_of_int (n + 1)" by (simp add: n_def)
  moreover have "(2::real) powi (bitlen n) = 2 ^ nat (bitlen n)"
    using b1 by (simp add: power_int_nonneg_exp)
  ultimately have "x < 2 powi (binade x + 1)" by (simp add: e)
  with lo show ?thesis by simp
next
  case False
  define m where "m = \<lceil>1 / x\<rceil> - 1"
  define b where "b = bitlen m"
  have y: "1 < 1 / x" using False assms by simp
  have m: "0 < m" using y unfolding m_def by linarith
  have b1: "1 \<le> b" using m by (simp add: b_def bitlen_alt_def)
  have bnd: "2 ^ nat (b - 1) \<le> m" "m < 2 ^ nat b"
    using bitlen_bounds [OF m] by (simp_all add: b_def)
  have e: "binade x = - b" using False by (simp add: binade_def m_def b_def)
  have "1 / x \<le> real_of_int (m + 1)" unfolding m_def by simp
  also have "m + 1 \<le> 2 ^ nat b" using bnd(2) by simp
  then have "real_of_int (m + 1) \<le> 2 ^ nat b"
    by (metis of_int_le_iff of_int_numeral of_int_power)
  finally have "1 / x \<le> 2 ^ nat b" .
  then have "1 / 2 ^ nat b \<le> x" using assms
    by (simp add: field_simps)
  moreover have "(2::real) powi (- b) = 1 / 2 ^ nat b"
    using b1 by (simp add: power_int_minus_divide power_int_nonneg_exp)
  ultimately have lo: "2 powi (binade x) \<le> x" by (simp add: e)
  have "(2::real) ^ nat (b - 1) \<le> real_of_int m" using bnd(1)
    by (metis of_int_le_iff of_int_numeral of_int_power)
  also have "real_of_int m < 1 / x" unfolding m_def by linarith
  finally have "(2::real) ^ nat (b - 1) < 1 / x" .
  then have "x < 1 / 2 ^ nat (b - 1)" using assms by (simp add: field_simps)
  moreover have "(2::real) powi (- b + 1) = 1 / 2 ^ nat (b - 1)"
  proof -
    have "(2::real) powi (- b + 1) = 2 powi (- (b - 1))" by simp
    also have "\<dots> = 1 / 2 powi (b - 1)" by (rule power_int_minus_divide)
    also have "\<dots> = 1 / 2 ^ nat (b - 1)" using b1 by (simp add: power_int_nonneg_exp)
    finally show ?thesis .
  qed
  ultimately have "x < 2 powi (binade x + 1)" by (simp add: e)
  with lo show ?thesis by simp
qed

lemma round64_zero: "round64 0 = Finite 0"
  by (simp add: round64_def)

lemma round64_rel:
  assumes normal: "x = 0 \<or> 2 powi (- 1022) \<le> \<bar>x\<bar>" and small: "\<bar>x\<bar> < 2 ^ 1023"
  shows "\<exists>r. round64 x = Finite r \<and> \<bar>r - x\<bar> \<le> \<bar>x\<bar> / 2 ^ 53"
proof (cases "x = 0")
  case True
  then show ?thesis by (simp add: round64_zero)
next
  case False
  define e where "e = binade \<bar>x\<bar>"
  define ulp :: real where "ulp = 2 powi (e - 52)"
  define r where "r = real_of_int (roundHalfEven (\<bar>x\<bar> / ulp)) * ulp"
  have pos: "0 < \<bar>x\<bar>" using False by simp
  have lo: "2 powi e \<le> \<bar>x\<bar>" and hi: "\<bar>x\<bar> < 2 powi (e + 1)"
    using binade_bounds [OF pos] by (simp_all add: e_def)
  have "- 1022 \<le> e"
  proof (rule ccontr)
    assume "\<not> - 1022 \<le> e"
    then have "e + 1 \<le> - 1022" by simp
    then have "(2::real) powi (e + 1) \<le> 2 powi (- 1022)"
      by (intro power_int_increasing) simp_all
    with hi normal False show False by simp
  qed
  then have emax: "max (binade \<bar>x\<bar>) (- 1022) = e" by (simp add: e_def)
  have ulp_pos: "0 < ulp" by (simp add: ulp_def)
  have ulp_eq: "ulp = 2 powi e / 2 ^ 52"
    by (simp add: ulp_def power_int_diff)
  have "\<bar>real_of_int (roundHalfEven (\<bar>x\<bar> / ulp)) - \<bar>x\<bar> / ulp\<bar> * ulp \<le> 1 / 2 * ulp"
    using roundHalfEven_close [of "\<bar>x\<bar> / ulp"] ulp_pos by (intro mult_right_mono) simp_all
  moreover have "\<bar>real_of_int (roundHalfEven (\<bar>x\<bar> / ulp)) - \<bar>x\<bar> / ulp\<bar> * ulp = \<bar>r - \<bar>x\<bar>\<bar>"
  proof -
    have "r - \<bar>x\<bar> = (real_of_int (roundHalfEven (\<bar>x\<bar> / ulp)) - \<bar>x\<bar> / ulp) * ulp"
      using ulp_pos by (simp add: r_def field_simps)
    then show ?thesis using ulp_pos by (simp add: abs_mult)
  qed
  moreover have "1 / 2 * ulp \<le> \<bar>x\<bar> / 2 ^ 53"
    using lo by (simp add: ulp_eq field_simps)
  ultimately have close: "\<bar>r - \<bar>x\<bar>\<bar> \<le> \<bar>x\<bar> / 2 ^ 53" by linarith
  then have "r \<le> \<bar>x\<bar> + \<bar>x\<bar> / 2 ^ 53" by linarith
  also have "\<dots> < 2 ^ 1023 + 2 ^ 1023 / 2 ^ 53"
    using small by (intro add_strict_mono divide_strict_right_mono) simp_all
  also have "\<dots> \<le> (2::real) ^ 1024" by simp
  finally have fin: "\<not> 2 ^ 1024 \<le> r" by simp
  have val: "round64 x = Finite (if x < 0 then - r else r)"
    unfolding round64_def Let_def emax ulp_def [symmetric] r_def [symmetric]
    using False fin by (simp only: if_False)
  have "\<bar>(if x < 0 then - r else r) - x\<bar> = \<bar>r - \<bar>x\<bar>\<bar>"
    by (cases "x < 0") simp_all
  with close val show ?thesis by simp
qed

text \<open>
  How the relative error grows in a quotient, in a product with a constant and in one
  more rounding.
\<close>

lemma round64_mid:
  assumes "1 / 2 ^ 100 \<le> \<bar>x\<bar>" "\<bar>x\<bar> \<le> 2 ^ 100"
  shows "\<exists>r. round64 x = Finite r \<and> \<bar>r - x\<bar> \<le> \<bar>x\<bar> / 2 ^ 53"
proof (rule round64_rel)
  have "(2::real) powi (- 1022) \<le> 1 / 2 ^ 100"
    by (simp add: power_int_minus_divide)
  with assms(1) show "x = 0 \<or> 2 powi (- 1022) \<le> \<bar>x\<bar>" by linarith
  have "(2::real) ^ 100 < 2 ^ 1023" by simp
  with assms(2) show "\<bar>x\<bar> < 2 ^ 1023" by linarith
qed

lemma div_err:
  fixes a b l t u :: real
  assumes a: "\<bar>a - l\<bar> \<le> u * \<bar>l\<bar>" and b: "\<bar>b - t\<bar> \<le> u * t"
    and t: "0 < t" and u: "0 \<le> u" "u \<le> 1 / 3"
  shows "\<bar>a / b - l / t\<bar> \<le> 3 * u * \<bar>l / t\<bar>"
proof -
  have "u * t \<le> 1 / 3 * t" using u t by (intro mult_right_mono) simp_all
  then have blo: "2 / 3 * t \<le> b" using b by (simp add: abs_le_iff)
  then have bpos: "0 < b" using t by linarith
  have "a * t - l * b = (a - l) * t - l * (b - t)" by (simp add: algebra_simps)
  then have "\<bar>a * t - l * b\<bar> \<le> \<bar>(a - l) * t\<bar> + \<bar>l * (b - t)\<bar>"
    by (simp add: abs_triangle_ineq4)
  also have "\<dots> = \<bar>a - l\<bar> * t + \<bar>l\<bar> * \<bar>b - t\<bar>"
    using t by (simp add: abs_mult)
  also have "\<dots> \<le> (u * \<bar>l\<bar>) * t + \<bar>l\<bar> * (u * t)"
    using a b t by (intro add_mono mult_right_mono mult_left_mono) simp_all
  finally have num: "\<bar>a * t - l * b\<bar> \<le> 2 * u * \<bar>l\<bar> * t" by (simp add: algebra_simps)
  have "a / b - l / t = (a * t - l * b) / (b * t)"
    using bpos t by (simp add: field_simps)
  then have "\<bar>a / b - l / t\<bar> = \<bar>a * t - l * b\<bar> / (b * t)"
    using bpos t by (simp add: abs_mult)
  also have "\<dots> \<le> (2 * u * \<bar>l\<bar> * t) / (b * t)"
    using num bpos t by (intro divide_right_mono) simp_all
  also have "\<dots> = 2 * u * \<bar>l\<bar> / b" using t by simp
  also have "\<dots> \<le> 2 * u * \<bar>l\<bar> / (2 / 3 * t)"
    using blo t u by (intro divide_left_mono mult_pos_pos mult_nonneg_nonneg) simp_all
  also have "\<dots> = 3 * u * \<bar>l / t\<bar>" using t by (simp add: abs_divide)
  finally show ?thesis .
qed

lemma round_err:
  fixes x y r u k :: real
  assumes y: "\<bar>y - x\<bar> \<le> k * u * \<bar>x\<bar>" and r: "\<bar>r - y\<bar> \<le> u * \<bar>y\<bar>"
    and u: "0 \<le> u" and k: "k * u \<le> 1"
  shows "\<bar>r - x\<bar> \<le> (k + 2) * u * \<bar>x\<bar>"
proof -
  have "k * u * \<bar>x\<bar> \<le> 1 * \<bar>x\<bar>" using k by (intro mult_right_mono) simp_all
  then have "\<bar>y\<bar> \<le> 2 * \<bar>x\<bar>" using y by linarith
  then have "u * \<bar>y\<bar> \<le> u * (2 * \<bar>x\<bar>)" using u by (rule mult_left_mono)
  then have "\<bar>r - x\<bar> \<le> u * (2 * \<bar>x\<bar>) + k * u * \<bar>x\<bar>" using r y by linarith
  then show ?thesis by (simp add: algebra_simps)
qed

lemma near_bounds:
  fixes x y c :: real
  assumes "\<bar>y - x\<bar> \<le> c * \<bar>x\<bar>" "0 \<le> c" "c \<le> 1 / 2"
  shows "\<bar>x\<bar> / 2 \<le> \<bar>y\<bar> \<and> \<bar>y\<bar> \<le> 2 * \<bar>x\<bar>"
proof -
  have "c * \<bar>x\<bar> \<le> 1 / 2 * \<bar>x\<bar>" using assms by (intro mult_right_mono) simp_all
  with assms(1) show ?thesis by linarith
qed

lemma float64_of_int_rel:
  assumes "\<bar>n\<bar> \<le> 2 ^ 63"
  shows "\<exists>a. float64_of_int n = Finite a \<and> \<bar>a - real_of_int n\<bar> \<le> 1 / 2 ^ 53 * \<bar>real_of_int n\<bar>"
proof -
  have "real_of_int n = 0 \<or> 2 powi (- 1022) \<le> \<bar>real_of_int n\<bar>"
  proof (cases "n = 0")
    case True
    then show ?thesis by simp
  next
    case False
    then have "1 \<le> \<bar>n\<bar>" by simp
    then have "1 \<le> \<bar>real_of_int n\<bar>" by linarith
    moreover have "(2::real) powi (- 1022) \<le> 1" by (simp add: power_int_minus_divide)
    ultimately show ?thesis by linarith
  qed
  moreover have "\<bar>real_of_int n\<bar> < 2 ^ 1023"
  proof -
    have "real_of_int \<bar>n\<bar> \<le> real_of_int (2 ^ 63)" using assms by (rule of_int_le_iff [THEN iffD2])
    then have "\<bar>real_of_int n\<bar> \<le> 2 ^ 63" by simp
    moreover have "(2::real) ^ 63 < 2 ^ 1023" by simp
    ultimately show ?thesis by linarith
  qed
  ultimately show ?thesis
    using round64_rel [of "real_of_int n"] by (simp add: float64_of_int_def)
qed

lemma range_step:
  fixes x y lo hi :: real
  assumes "x / 2 \<le> y \<and> y \<le> 2 * x" "lo \<le> x" "x \<le> hi"
  shows "lo / 2 \<le> y \<and> y \<le> 2 * hi"
  using assms by linarith

lemma range_wide:
  fixes y :: real
  assumes "1 / 2 ^ 63 / 2 \<le> y \<and> y \<le> 2 * 2 ^ 63"
  shows "1 / 2 ^ 100 \<le> y" "y \<le> 2 ^ 100"
proof -
  have "(1::real) / 2 ^ 100 \<le> 1 / 2 ^ 63 / 2" "2 * 2 ^ 63 \<le> (2::real) ^ 100" by simp_all
  with assms show "1 / 2 ^ 100 \<le> y" "y \<le> 2 ^ 100" by linarith+
qed

lemma range_wide100:
  fixes y :: real
  assumes "1 / 2 ^ 63 / 2 \<le> y \<and> y \<le> 2 * 2 ^ 63 * 100"
  shows "1 / 2 ^ 100 \<le> y" "y \<le> 2 ^ 100"
proof -
  have "(1::real) / 2 ^ 100 \<le> 1 / 2 ^ 63 / 2" "2 * 2 ^ 63 * 100 \<le> (2::real) ^ 100" by simp_all
  with assms show "1 / 2 ^ 100 \<le> y" "y \<le> 2 ^ 100" by linarith+
qed

lemma scale_err:
  fixes x y c k :: real
  assumes "\<bar>y - x\<bar> \<le> k * \<bar>x\<bar>" "0 \<le> c"
  shows "\<bar>y * c - x * c\<bar> \<le> k * \<bar>x * c\<bar>"
proof -
  have "y * c - x * c = (y - x) * c" by (rule left_diff_distrib [symmetric])
  then have "\<bar>y * c - x * c\<bar> = \<bar>y - x\<bar> * c" using assms(2) by (simp add: abs_mult)
  also have "\<dots> \<le> (k * \<bar>x\<bar>) * c" using assms by (intro mult_right_mono)
  also have "\<dots> = k * \<bar>x * c\<bar>" using assms(2) by (simp add: abs_mult)
  finally show ?thesis .
qed

lemma percentage_error:
  fixes l t :: int
  assumes t: "0 < t" "t < 2 ^ 63" and l: "\<bar>l\<bar> \<le> 2 ^ 63"
  shows "\<exists>p. fmul (fdiv (float64_of_int l) (float64_of_int t)) (Finite 100) = Finite p \<and>
    \<bar>p - real_of_int l / real_of_int t * 100\<bar> \<le>
      \<bar>real_of_int l / real_of_int t * 100\<bar> / 2 ^ 50"
proof -
  define u :: real where "u = 1 / 2 ^ 53"
  have u: "0 \<le> u" "u \<le> 1 / 3" "3 * u \<le> 1 / 2" "5 * u \<le> 1 / 2" "3 * u \<le> 1" "5 * u \<le> 1"
    by (simp_all add: u_def)
  have u7: "7 * u \<le> 1 / 2 ^ 50" by (simp add: u_def)
  let ?l = "real_of_int l" and ?t = "real_of_int t"
  have tpos: "0 < ?t" using t by simp
  have t1: "1 \<le> ?t" using t by linarith
  have t63: "?t \<le> 2 ^ 63"
  proof -
    have "real_of_int t \<le> real_of_int (2 ^ 63)" using t by (intro of_int_le_iff [THEN iffD2]) simp
    then show ?thesis by simp
  qed
  have l63: "\<bar>?l\<bar> \<le> 2 ^ 63"
  proof -
    have "real_of_int \<bar>l\<bar> \<le> real_of_int (2 ^ 63)" using l by (rule of_int_le_iff [THEN iffD2])
    then show ?thesis by simp
  qed
  obtain a where a: "float64_of_int l = Finite a" "\<bar>a - ?l\<bar> \<le> u * \<bar>?l\<bar>"
    using float64_of_int_rel [OF l] unfolding u_def by blast
  have "\<bar>t\<bar> \<le> 2 ^ 63" using t by simp
  then obtain b where b: "float64_of_int t = Finite b" "\<bar>b - ?t\<bar> \<le> u * ?t"
    using float64_of_int_rel [of t] tpos unfolding u_def by auto
  have "u * ?t \<le> 1 / 3 * ?t" using u tpos by (intro mult_right_mono) simp_all
  then have "0 < b" using b(2) tpos by linarith
  then have quot: "fdiv (float64_of_int l) (float64_of_int t) = round64 (a / b)"
    by (simp add: a b)
  have derr: "\<bar>a / b - ?l / ?t\<bar> \<le> 3 * u * \<bar>?l / ?t\<bar>"
    by (rule div_err [OF a(2) b(2) tpos u(1) u(2)])
  show ?thesis
  proof (cases "l = 0")
    case True
    then have "a = 0" using a(2) by simp
    then show ?thesis using True quot by (simp add: round64_zero)
  next
    case False
    then have "1 \<le> \<bar>l\<bar>" by simp
    then have l1: "1 \<le> \<bar>?l\<bar>" by linarith
    have xlo: "1 / 2 ^ 63 \<le> \<bar>?l / ?t\<bar>"
    proof -
      have "1 / 2 ^ 63 \<le> 1 / ?t" using t63 tpos by (simp add: field_simps)
      also have "\<dots> \<le> \<bar>?l\<bar> / ?t" using l1 tpos by (intro divide_right_mono) simp_all
      finally show ?thesis using tpos by (simp add: abs_divide)
    qed
    have xhi: "\<bar>?l / ?t\<bar> \<le> 2 ^ 63"
    proof -
      have "\<bar>?l\<bar> / ?t \<le> \<bar>?l\<bar> / 1" using t1 by (intro divide_left_mono) simp_all
      with l63 show ?thesis using tpos by (simp add: abs_divide)
    qed
    have y1: "\<bar>?l / ?t\<bar> / 2 \<le> \<bar>a / b\<bar> \<and> \<bar>a / b\<bar> \<le> 2 * \<bar>?l / ?t\<bar>"
      using near_bounds [OF derr] u by simp
    have "1 / 2 ^ 63 / 2 \<le> \<bar>a / b\<bar> \<and> \<bar>a / b\<bar> \<le> 2 * 2 ^ 63"
      by (rule range_step [OF y1 xlo xhi])
    then have "1 / 2 ^ 100 \<le> \<bar>a / b\<bar>" "\<bar>a / b\<bar> \<le> 2 ^ 100"
      by (rule range_wide)+
    then obtain q where q: "round64 (a / b) = Finite q" "\<bar>q - a / b\<bar> \<le> u * \<bar>a / b\<bar>"
      using round64_mid [of "a / b"] unfolding u_def by auto
    have qerr: "\<bar>q - ?l / ?t\<bar> \<le> 5 * u * \<bar>?l / ?t\<bar>"
      using round_err [OF derr q(2) u(1) u(5)] by simp
    have q1: "\<bar>?l / ?t\<bar> / 2 \<le> \<bar>q\<bar> \<and> \<bar>q\<bar> \<le> 2 * \<bar>?l / ?t\<bar>"
      using near_bounds [OF qerr] u by simp
    have prod: "fmul (fdiv (float64_of_int l) (float64_of_int t)) (Finite 100) = round64 (q * 100)"
      by (simp add: quot q)
    have "1 / 2 ^ 63 / 2 \<le> \<bar>q\<bar> \<and> \<bar>q\<bar> \<le> 2 * 2 ^ 63"
      by (rule range_step [OF q1 xlo xhi])
    then have "1 / 2 ^ 63 / 2 \<le> \<bar>q * 100\<bar> \<and> \<bar>q * 100\<bar> \<le> 2 * 2 ^ 63 * 100"
      by (simp add: abs_mult)
    then have "1 / 2 ^ 100 \<le> \<bar>q * 100\<bar>" "\<bar>q * 100\<bar> \<le> 2 ^ 100"
      by (rule range_wide100)+
    then obtain p where p: "round64 (q * 100) = Finite p" "\<bar>p - q * 100\<bar> \<le> u * \<bar>q * 100\<bar>"
      using round64_mid [of "q * 100"] unfolding u_def by auto
    have serr: "\<bar>q * 100 - ?l / ?t * 100\<bar> \<le> 5 * u * \<bar>?l / ?t * 100\<bar>"
      by (rule scale_err [OF qerr]) simp
    have "\<bar>p - ?l / ?t * 100\<bar> \<le> (5 + 2) * u * \<bar>?l / ?t * 100\<bar>"
      by (rule round_err [OF serr p(2) u(1) u(6)])
    also have "\<dots> \<le> 1 / 2 ^ 50 * \<bar>?l / ?t * 100\<bar>"
      using u7 by (intro mult_right_mono) simp_all
    finally show ?thesis using prod p(1) by simp
  qed
qed

section \<open>Properties of the library functions\<close>

text \<open>\<open>Contains s substr\<close> holds when \<open>substr\<close> is a contiguous part of \<open>s\<close>.\<close>

lemma Contains_sublist: "Contains s substr = sublist substr s"
  by (induction s) (simp_all add: sublist_Cons_right)

lemma Contains_append: "Contains (p @ substr @ q) substr"
  unfolding Contains_sublist by (rule sublist_appendI)

text \<open>
  The result of \<open>sort_Slice\<close> is a permutation of its argument. It is sorted when the
  comparison is asymmetric and its negation is transitive, which is what Go asks of the
  comparison passed to \<open>sort.Slice\<close>.
\<close>

lemma mset_insertionStep: "mset (insertionStep lessFn x ys) = add_mset x (mset ys)"
  by (induction ys) auto

lemma mset_foldl_insertionStep:
  "mset (foldl (\<lambda>acc x. insertionStep lessFn x acc) ys xs) = mset xs + mset ys"
  by (induction xs arbitrary: ys) (auto simp: mset_insertionStep)

lemma mset_sort_Slice: "mset (sort_Slice lessFn xs) = mset xs"
  by (simp add: sort_Slice_def mset_foldl_insertionStep)

lemma length_sort_Slice: "length (sort_Slice lessFn xs) = length xs"
proof -
  have "size (mset (sort_Slice lessFn xs)) = size (mset xs)"
    by (simp only: mset_sort_Slice)
  then show ?thesis by simp
qed

lemma set_insertionStep: "set (insertionStep lessFn x ys) = insert x (set ys)"
  by (induction ys) auto

lemma sorted_insertionStep:
  assumes asym: "\<And>a b. lessFn a b \<Longrightarrow> \<not> lessFn b a"
    and ntrans: "\<And>a b c. \<not> lessFn a b \<Longrightarrow> \<not> lessFn b c \<Longrightarrow> \<not> lessFn a c"
    and srt: "sorted_wrt (\<lambda>a b. \<not> lessFn a b) ys"
  shows "sorted_wrt (\<lambda>a b. \<not> lessFn a b) (insertionStep lessFn x ys)"
  using srt
proof (induction ys)
  case Nil
  then show ?case by simp
next
  case (Cons y ys)
  show ?case
  proof (cases "lessFn x y")
    case True
    have "\<not> lessFn y x" using True by (rule asym)
    moreover have "sorted_wrt (\<lambda>a b. \<not> lessFn a b) (insertionStep lessFn x ys)"
      using Cons by simp
    ultimately show ?thesis using True Cons.prems by (simp add: set_insertionStep)
  next
    case False
    have "\<not> lessFn x z" if "z \<in> set ys" for z
    proof -
      have "\<not> lessFn y z" using that Cons.prems by simp
      with False show ?thesis by (rule ntrans)
    qed
    with False Cons.prems show ?thesis by simp
  qed
qed

lemma sorted_foldl_insertionStep:
  assumes asym: "\<And>a b. lessFn a b \<Longrightarrow> \<not> lessFn b a"
    and ntrans: "\<And>a b c. \<not> lessFn a b \<Longrightarrow> \<not> lessFn b c \<Longrightarrow> \<not> lessFn a c"
  shows "sorted_wrt (\<lambda>a b. \<not> lessFn a b) ys \<Longrightarrow>
    sorted_wrt (\<lambda>a b. \<not> lessFn a b) (foldl (\<lambda>acc x. insertionStep lessFn x acc) ys xs)"
proof (induction xs arbitrary: ys)
  case Nil
  then show ?case by simp
next
  case (Cons x xs)
  have "sorted_wrt (\<lambda>a b. \<not> lessFn a b) (insertionStep lessFn x ys)"
    by (rule sorted_insertionStep [OF asym ntrans Cons.prems])
  then show ?case using Cons.IH by simp
qed

lemma sorted_sort_Slice:
  assumes asym: "\<And>a b. lessFn a b \<Longrightarrow> \<not> lessFn b a"
    and ntrans: "\<And>a b c. \<not> lessFn a b \<Longrightarrow> \<not> lessFn b c \<Longrightarrow> \<not> lessFn a c"
  shows "sorted_wrt (\<lambda>a b. \<not> lessFn b a) (sort_Slice lessFn xs)"
proof -
  have "sorted_wrt (\<lambda>a b. \<not> lessFn a b) (foldl (\<lambda>acc x. insertionStep lessFn x acc) [] xs)"
    by (rule sorted_foldl_insertionStep [OF asym ntrans]) simp_all
  then show ?thesis by (simp add: sort_Slice_def sorted_wrt_rev)
qed

section \<open>Properties of the loops\<close>

lemma leakLoop_eq:
  "leakLoop leaks issues =
     issues @ map leakIssue (filter (\<lambda>l. \<not> (Leak.LeakSize l = 0 \<and> Leak.LeakCount l = 0)) leaks)"
  by (induction leaks arbitrary: issues) auto

lemma largeAllocationLoop_eq:
  "largeAllocationLoop fns issues =
     issues @ map largeAllocationIssue
       (filter (\<lambda>fn. fgt (Function.AverageSize fn) (Finite 10000) \<or> 50000 < Function.MaxSize fn) fns)"
  by (induction fns arbitrary: issues) auto

lemma writeLeakers_eq:
  "0 \<le> i \<Longrightarrow> n \<le> int (length leaks) \<Longrightarrow>
   writeLeakers leaks i n result =
     Some (result @ concat (map (\<lambda>k. writeLeaker (int k) (leaks ! k)) [nat i..<nat n]))"
proof (induction leaks i n result rule: writeLeakers.induct)
  case (1 leaks i n result)
  show ?case
  proof (cases "i < n")
    case True
    then have rng: "0 \<le> i \<and> i < int (length leaks)" using "1.prems" by simp
    have suc: "nat (i + 1) = Suc (nat i)" using rng by linarith
    have "nat i < nat n" using True rng by linarith
    then have up: "[nat i..<nat n] = nat i # [nat (i + 1)..<nat n]"
      unfolding suc by (rule upt_conv_Cons)
    have "writeLeakers leaks i n result =
        writeLeakers leaks (i + 1) n (result @ writeLeaker i (leaks ! nat i))"
      using True rng by (subst writeLeakers.simps) simp
    also have "\<dots> = Some ((result @ writeLeaker i (leaks ! nat i)) @
        concat (map (\<lambda>k. writeLeaker (int k) (leaks ! k)) [nat (i + 1)..<nat n]))"
      using "1.IH" [OF True rng] rng "1.prems" by simp
    finally show ?thesis using up rng by simp
  next
    case False
    then show ?thesis by (subst writeLeakers.simps) simp
  qed
qed

section \<open>Leak analysis\<close>

lemma issueLess_asym: "issueLess a b \<Longrightarrow> \<not> issueLess b a"
  by (auto simp: issueLess_def Let_def split: if_splits)

lemma issueLess_ntrans: "\<not> issueLess a b \<Longrightarrow> \<not> issueLess b c \<Longrightarrow> \<not> issueLess a c"
  by (auto simp: issueLess_def Let_def split: if_splits)

lemma AnalyzeLeaks_data:
  "AnalyzeLeaks (Some \<lparr>data = Some d\<rparr>) =
     sort_Slice issueLess
       (map leakIssue (filter (\<lambda>l. \<not> (Leak.LeakSize l = 0 \<and> Leak.LeakCount l = 0)) (Leaks d)))"
  by (simp add: AnalyzeLeaks_def leakLoop_eq)

lemma Severity_leakIssue: "Severity (leakIssue l) = calculateLeakSeverity l"
  by (simp add: leakIssue_def)

text \<open>
  C1. The issues that \<open>AnalyzeLeaks\<close> returns are the issues of the leaks it does not
  skip, each once. The severity of the issue of a leak is one of Critical, High, Medium
  and Low, given by the first rule that matches: Critical when the leak is suspect and
  larger than 100000 bytes; else High when it is suspect or larger than 50000 bytes;
  else Medium when it is larger than 10000 bytes or has more than 100 allocations;
  else Low.
\<close>

theorem AnalyzeLeaks_severity:
  "mset (AnalyzeLeaks (Some \<lparr>data = Some d\<rparr>)) =
     mset (map leakIssue
       (filter (\<lambda>l. \<not> (Leak.LeakSize l = 0 \<and> Leak.LeakCount l = 0)) (Leaks d))) \<and>
   Severity (leakIssue l) \<in> {''Critical'', ''High'', ''Medium'', ''Low''} \<and>
   (Severity (leakIssue l) = ''Critical'' \<longleftrightarrow>
      IsSuspect l \<and> 100000 < Leak.LeakSize l) \<and>
   (Severity (leakIssue l) = ''High'' \<longleftrightarrow>
      \<not> (IsSuspect l \<and> 100000 < Leak.LeakSize l) \<and>
      (IsSuspect l \<or> 50000 < Leak.LeakSize l)) \<and>
   (Severity (leakIssue l) = ''Medium'' \<longleftrightarrow>
      \<not> (IsSuspect l \<and> 100000 < Leak.LeakSize l) \<and>
      \<not> (IsSuspect l \<or> 50000 < Leak.LeakSize l) \<and>
      (10000 < Leak.LeakSize l \<or> 100 < Leak.LeakCount l)) \<and>
   (Severity (leakIssue l) = ''Low'' \<longleftrightarrow>
      \<not> (IsSuspect l \<and> 100000 < Leak.LeakSize l) \<and>
      \<not> (IsSuspect l \<or> 50000 < Leak.LeakSize l) \<and>
      \<not> (10000 < Leak.LeakSize l \<or> 100 < Leak.LeakCount l))"
proof -
  have "mset (AnalyzeLeaks (Some \<lparr>data = Some d\<rparr>)) =
     mset (map leakIssue
       (filter (\<lambda>l. \<not> (Leak.LeakSize l = 0 \<and> Leak.LeakCount l = 0)) (Leaks d)))"
    unfolding AnalyzeLeaks_data by (rule mset_sort_Slice)
  moreover have "Severity (leakIssue l) \<in> {''Critical'', ''High'', ''Medium'', ''Low''}"
    by (simp add: Severity_leakIssue calculateLeakSeverity_def)
  moreover have "Severity (leakIssue l) = ''Critical'' \<longleftrightarrow>
      IsSuspect l \<and> 100000 < Leak.LeakSize l"
    by (simp add: Severity_leakIssue calculateLeakSeverity_def)
  moreover have "Severity (leakIssue l) = ''High'' \<longleftrightarrow>
      \<not> (IsSuspect l \<and> 100000 < Leak.LeakSize l) \<and>
      (IsSuspect l \<or> 50000 < Leak.LeakSize l)"
    by (simp add: Severity_leakIssue calculateLeakSeverity_def)
  moreover have "Severity (leakIssue l) = ''Medium'' \<longleftrightarrow>
      \<not> (IsSuspect l \<and> 100000 < Leak.LeakSize l) \<and>
      \<not> (IsSuspect l \<or> 50000 < Leak.LeakSize l) \<and>
      (10000 < Leak.LeakSize l \<or> 100 < Leak.LeakCount l)"
    by (simp add: Severity_leakIssue calculateLeakSeverity_def)
  moreover have "Severity (leakIssue l) = ''Low'' \<longleftrightarrow>
      \<not> (IsSuspect l \<and> 100000 < Leak.LeakSize l) \<and>
      \<not> (IsSuspect l \<or> 50000 < Leak.LeakSize l) \<and>
      \<not> (10000 < Leak.LeakSize l \<or> 100 < Leak.LeakCount l)"
    by (simp add: Severity_leakIssue calculateLeakSeverity_def)
  ultimately show ?thesis by blast
qed

theorem AnalyzeLeaks_severity_witness:
  "Severity (leakIssue (zeroLeak\<lparr>IsSuspect := True, Leak.LeakSize := 200000\<rparr>)) = ''Critical'' \<and>
   length (AnalyzeLeaks (Some \<lparr>data = Some (zeroData\<lparr>Leaks :=
     [zeroLeak\<lparr>IsSuspect := True, Leak.LeakSize := 200000\<rparr>, zeroLeak]\<rparr>)\<rparr>)) = 1"
proof -
  let ?l = "zeroLeak\<lparr>IsSuspect := True, Leak.LeakSize := 200000\<rparr>"
  let ?d = "zeroData\<lparr>Leaks := [?l, zeroLeak]\<rparr>"
  have "size (mset (AnalyzeLeaks (Some \<lparr>data = Some ?d\<rparr>))) = 1"
    using AnalyzeLeaks_severity [of ?d ?l] by (simp add: zeroData_def zeroLeak_def)
  moreover have "Severity (leakIssue ?l) = ''Critical''"
    using AnalyzeLeaks_severity [of ?d ?l] by (simp add: zeroLeak_def)
  ultimately show ?thesis by simp
qed

lemma severityRank_values:
  "severityRank ''Critical'' = 0" "severityRank ''High'' = 1"
  "severityRank ''Medium'' = 2" "severityRank ''Low'' = 3"
  by (simp_all add: severityRank_def severityOrder_def)

lemma severityRank_other:
  "s \<notin> {''Critical'', ''High'', ''Medium'', ''Low''} \<Longrightarrow> severityRank s = 999"
  by (simp add: severityRank_def severityOrder_def)

lemma AnalyzeLeaks_sorted_wrt:
  "sorted_wrt (\<lambda>a b. \<not> issueLess b a) (AnalyzeLeaks ma)"
proof (cases ma)
  case None
  then show ?thesis by (simp add: AnalyzeLeaks_def)
next
  case (Some a)
  show ?thesis
  proof (cases "data a")
    case None
    with Some show ?thesis by (simp add: AnalyzeLeaks_def)
  next
    case (Some d)
    have "sorted_wrt (\<lambda>a b. \<not> issueLess b a) (sort_Slice issueLess (leakLoop (Leaks d) []))"
      by (rule sorted_sort_Slice [OF issueLess_asym issueLess_ntrans])
    with Some \<open>ma = Some a\<close> show ?thesis by (simp add: AnalyzeLeaks_def)
  qed
qed

text \<open>
  C2. The list that \<open>AnalyzeLeaks\<close> returns is sorted. Of two neighbours, the rank of
  the first one's severity is at most the rank of the second one's, and when the two
  ranks are equal, the size of the first is at least the size of the second. The ranks
  are 0 for Critical, 1 for High, 2 for Medium, 3 for Low, and 999, which is last, for
  any other string.
\<close>

theorem AnalyzeLeaks_sorted:
  "(Suc i < length (AnalyzeLeaks ma) \<longrightarrow>
      severityRank (Severity (AnalyzeLeaks ma ! i)) \<le>
        severityRank (Severity (AnalyzeLeaks ma ! Suc i)) \<and>
      (severityRank (Severity (AnalyzeLeaks ma ! i)) =
         severityRank (Severity (AnalyzeLeaks ma ! Suc i)) \<longrightarrow>
       Size (AnalyzeLeaks ma ! Suc i) \<le> Size (AnalyzeLeaks ma ! i))) \<and>
   severityRank ''Critical'' = 0 \<and> severityRank ''High'' = 1 \<and>
   severityRank ''Medium'' = 2 \<and> severityRank ''Low'' = 3 \<and>
   (s \<notin> {''Critical'', ''High'', ''Medium'', ''Low''} \<longrightarrow> severityRank s = 999)"
proof -
  have "severityRank (Severity (AnalyzeLeaks ma ! i)) \<le>
        severityRank (Severity (AnalyzeLeaks ma ! Suc i)) \<and>
      (severityRank (Severity (AnalyzeLeaks ma ! i)) =
         severityRank (Severity (AnalyzeLeaks ma ! Suc i)) \<longrightarrow>
       Size (AnalyzeLeaks ma ! Suc i) \<le> Size (AnalyzeLeaks ma ! i))"
    if len: "Suc i < length (AnalyzeLeaks ma)"
  proof -
    have "\<not> issueLess (AnalyzeLeaks ma ! Suc i) (AnalyzeLeaks ma ! i)"
      using AnalyzeLeaks_sorted_wrt [of ma] len by (simp add: sorted_wrt_iff_nth_less)
    then show ?thesis
      by (auto simp: issueLess_def Let_def split: if_splits)
  qed
  then show ?thesis
    using severityRank_values severityRank_other [of s] by blast
qed

theorem AnalyzeLeaks_sorted_witness:
  "Suc 0 < length (AnalyzeLeaks (Some \<lparr>data = Some (zeroData\<lparr>Leaks :=
      [zeroLeak\<lparr>Leak.LeakSize := 7000\<rparr>, zeroLeak\<lparr>Leak.LeakSize := 60000\<rparr>,
       zeroLeak\<lparr>Leak.LeakSize := 9000\<rparr>]\<rparr>)\<rparr>)) \<and>
   map Size (AnalyzeLeaks (Some \<lparr>data = Some (zeroData\<lparr>Leaks :=
      [zeroLeak\<lparr>Leak.LeakSize := 7000\<rparr>, zeroLeak\<lparr>Leak.LeakSize := 60000\<rparr>,
       zeroLeak\<lparr>Leak.LeakSize := 9000\<rparr>]\<rparr>)\<rparr>)) = [60000, 9000, 7000] \<and>
   severityRank (Severity (AnalyzeLeaks (Some \<lparr>data = Some (zeroData\<lparr>Leaks :=
      [zeroLeak\<lparr>Leak.LeakSize := 7000\<rparr>, zeroLeak\<lparr>Leak.LeakSize := 60000\<rparr>,
       zeroLeak\<lparr>Leak.LeakSize := 9000\<rparr>]\<rparr>)\<rparr>) ! 0)) \<le>
   severityRank (Severity (AnalyzeLeaks (Some \<lparr>data = Some (zeroData\<lparr>Leaks :=
      [zeroLeak\<lparr>Leak.LeakSize := 7000\<rparr>, zeroLeak\<lparr>Leak.LeakSize := 60000\<rparr>,
       zeroLeak\<lparr>Leak.LeakSize := 9000\<rparr>]\<rparr>)\<rparr>) ! Suc 0)) \<and>
   severityRank ''Bogus'' = 999"
proof -
  let ?ma = "Some \<lparr>data = Some (zeroData\<lparr>Leaks :=
      [zeroLeak\<lparr>Leak.LeakSize := 7000\<rparr>, zeroLeak\<lparr>Leak.LeakSize := 60000\<rparr>,
       zeroLeak\<lparr>Leak.LeakSize := 9000\<rparr>]\<rparr>)\<rparr>"
  have sizes: "map Size (AnalyzeLeaks ?ma) = [60000, 9000, 7000]"
    by (simp add: AnalyzeLeaks_def sort_Slice_def leakIssue_def issueLess_def
        calculateLeakSeverity_def severityRank_def severityOrder_def zeroData_def zeroLeak_def)
  have len: "Suc 0 < length (AnalyzeLeaks ?ma)"
    using arg_cong [OF sizes, of length] by simp
  show ?thesis
    using AnalyzeLeaks_sorted [of 0 ?ma "''Bogus''"] len sizes by simp
qed

lemma fmt_d_5000: "fmt_d 5000 = ''5000''"
  by (simp add: fmt_d_def digits.simps)

lemma fmt_d_1: "fmt_d 1 = ''1''"
  by (simp add: fmt_d_def digits.simps)

lemma set_sort_Slice: "set (sort_Slice lessFn xs) = set xs"
  using mset_sort_Slice [of lessFn xs] by (rule mset_eq_setD)

lemma sort_Slice_single: "sort_Slice lessFn [x] = [x]"
  by (simp add: sort_Slice_def)

text \<open>
  C5. A leak whose leaked bytes and leaked count are both zero produces no issue,
  whatever its other fields are: the result is the same as without the leak, and no
  issue of the result has size zero and count zero.
\<close>

theorem AnalyzeLeaks_skips_zero:
  "(Leak.LeakSize l = 0 \<and> Leak.LeakCount l = 0 \<longrightarrow>
      AnalyzeLeaks (Some \<lparr>data = Some (d\<lparr>Leaks := pre @ l # post\<rparr>)\<rparr>) =
      AnalyzeLeaks (Some \<lparr>data = Some (d\<lparr>Leaks := pre @ post\<rparr>)\<rparr>)) \<and>
   (\<forall>issue \<in> set (AnalyzeLeaks ma). \<not> (Size issue = 0 \<and> Count issue = 0))"
proof -
  have "\<not> (Size issue = 0 \<and> Count issue = 0)" if "issue \<in> set (AnalyzeLeaks ma)" for issue
  proof (cases ma)
    case None
    with that show ?thesis by (simp add: AnalyzeLeaks_def)
  next
    case (Some a)
    show ?thesis
    proof (cases "data a")
      case None
      with Some that show ?thesis by (simp add: AnalyzeLeaks_def)
    next
      case (Some dd)
      have "ma = Some \<lparr>data = Some dd\<rparr>" using Some \<open>ma = Some a\<close> by simp
      then have "issue \<in> set (map leakIssue
          (filter (\<lambda>l. \<not> (Leak.LeakSize l = 0 \<and> Leak.LeakCount l = 0)) (Leaks dd)))"
        using that by (simp only: AnalyzeLeaks_data set_sort_Slice)
      then obtain k where "issue = leakIssue k"
          "\<not> (Leak.LeakSize k = 0 \<and> Leak.LeakCount k = 0)"
        by auto
      then show ?thesis by (simp add: leakIssue_def)
    qed
  qed
  then show ?thesis by (simp add: AnalyzeLeaks_data)
qed

theorem AnalyzeLeaks_skips_zero_witness:
  "AnalyzeLeaks (Some \<lparr>data = Some (zeroData\<lparr>Leaks :=
       [zeroLeak\<lparr>Leak.LeakSize := 7000\<rparr>] @
       zeroLeak\<lparr>IsSuspect := True, LeakScore := Finite 9\<rparr> # []\<rparr>)\<rparr>) =
   AnalyzeLeaks (Some \<lparr>data = Some (zeroData\<lparr>Leaks :=
       [zeroLeak\<lparr>Leak.LeakSize := 7000\<rparr>] @ []\<rparr>)\<rparr>) \<and>
   map Size (AnalyzeLeaks (Some \<lparr>data = Some (zeroData\<lparr>Leaks :=
       [zeroLeak\<lparr>Leak.LeakSize := 7000\<rparr>,
        zeroLeak\<lparr>IsSuspect := True, LeakScore := Finite 9\<rparr>]\<rparr>)\<rparr>)) = [7000]"
proof -
  let ?l = "zeroLeak\<lparr>IsSuspect := True, LeakScore := Finite 9\<rparr>"
  let ?ma = "Some \<lparr>data = Some (zeroData\<lparr>Leaks :=
       [zeroLeak\<lparr>Leak.LeakSize := 7000\<rparr>, ?l]\<rparr>)\<rparr>"
  have zero: "Leak.LeakSize ?l = 0 \<and> Leak.LeakCount ?l = 0"
    by (simp add: zeroLeak_def)
  have "map Size (AnalyzeLeaks ?ma) = [7000]"
    by (simp add: AnalyzeLeaks_def sort_Slice_def leakIssue_def zeroData_def zeroLeak_def)
  then show ?thesis
    using AnalyzeLeaks_skips_zero [where l = ?l and d = zeroData
        and pre = "[zeroLeak\<lparr>Leak.LeakSize := 7000\<rparr>]" and post = "[]" and ma = ?ma]
      zero by simp
qed

text \<open>
  C9. For the single leak named \<open>Unknown Function at 0x1234\<close> with 5000 bytes, one
  allocation and no suspect flag, \<open>AnalyzeLeaks\<close> returns exactly one issue: its
  severity is Low, its description mentions missing debug symbols and its suggestion is
  to enable debug symbols. For every leak whose function name contains
  \<open>Unknown Function\<close> the suggestion is the debug-symbols one, whatever else the name
  contains, and the description mentions missing debug symbols.
\<close>

theorem unknown_function_leak:
  "(Leaks d = [l] \<and> Leak.FunctionName l = ''Unknown Function at 0x1234'' \<and>
    Leak.LeakSize l = 5000 \<and> Leak.LeakCount l = 1 \<and> \<not> IsSuspect l \<longrightarrow>
      AnalyzeLeaks (Some \<lparr>data = Some d\<rparr>) = [leakIssue l] \<and>
      Severity (leakIssue l) = ''Low'' \<and>
      Description (leakIssue l) =
        ''Unknown function leaked 5000 bytes across 1 allocations. This may indicate missing debug symbols or dynamically loaded code.'' \<and>
      Contains (Description (leakIssue l)) ''missing debug symbols'' \<and>
      Suggestion (leakIssue l) =
        ''Enable debug symbols and rebuild with full symbol information to identify the exact source of this leak. Check for third-party libraries or dynamically loaded modules.'') \<and>
   (Contains (Leak.FunctionName k) ''Unknown Function'' \<longrightarrow>
      Contains (Description (leakIssue k)) ''missing debug symbols'' \<and>
      generateLeakSuggestion k =
        ''Enable debug symbols and rebuild with full symbol information to identify the exact source of this leak. Check for third-party libraries or dynamically loaded modules.'' \<and>
      Suggestion (leakIssue k) = generateLeakSuggestion k)"
proof -
  have general: "Contains (Description (leakIssue k)) ''missing debug symbols'' \<and>
      generateLeakSuggestion k =
        ''Enable debug symbols and rebuild with full symbol information to identify the exact source of this leak. Check for third-party libraries or dynamically loaded modules.'' \<and>
      Suggestion (leakIssue k) = generateLeakSuggestion k"
    if unknown: "Contains (Leak.FunctionName k) ''Unknown Function''" for k
  proof -
    have "Description (leakIssue k) =
        (''Unknown function leaked '' @ fmt_d (Leak.LeakSize k) @ '' bytes across '' @
         fmt_d (Leak.LeakCount k) @ '' allocations. This may indicate '') @
        ''missing debug symbols'' @ '' or dynamically loaded code.''"
      using unknown by (simp add: leakIssue_def formatLeakDescription_def)
    then have "Contains (Description (leakIssue k)) ''missing debug symbols''"
      using Contains_append by metis
    then show ?thesis
      using unknown by (simp add: leakIssue_def generateLeakSuggestion_def)
  qed
  have scenario: "AnalyzeLeaks (Some \<lparr>data = Some d\<rparr>) = [leakIssue l] \<and>
      Severity (leakIssue l) = ''Low'' \<and>
      Description (leakIssue l) =
        ''Unknown function leaked 5000 bytes across 1 allocations. This may indicate missing debug symbols or dynamically loaded code.'' \<and>
      Contains (Description (leakIssue l)) ''missing debug symbols'' \<and>
      Suggestion (leakIssue l) =
        ''Enable debug symbols and rebuild with full symbol information to identify the exact source of this leak. Check for third-party libraries or dynamically loaded modules.''"
    if one: "Leaks d = [l]" and name: "Leak.FunctionName l = ''Unknown Function at 0x1234''"
      and size: "Leak.LeakSize l = 5000" and count: "Leak.LeakCount l = 1"
      and suspect: "\<not> IsSuspect l"
  proof -
    have unknown: "Contains (Leak.FunctionName l) ''Unknown Function''"
      unfolding name by simp
    have "AnalyzeLeaks (Some \<lparr>data = Some d\<rparr>) = [leakIssue l]"
      using one size by (simp add: AnalyzeLeaks_data sort_Slice_single)
    moreover have "Severity (leakIssue l) = ''Low''"
      using size count suspect by (simp add: leakIssue_def calculateLeakSeverity_def)
    moreover have "Description (leakIssue l) =
        ''Unknown function leaked 5000 bytes across 1 allocations. This may indicate missing debug symbols or dynamically loaded code.''"
      using unknown size count
      by (simp add: leakIssue_def formatLeakDescription_def fmt_d_5000 fmt_d_1)
    ultimately show ?thesis using general [OF unknown] by simp
  qed
  show ?thesis using general scenario by blast
qed

theorem unknown_function_leak_witness:
  "map Severity (AnalyzeLeaks (Some \<lparr>data = Some (zeroData\<lparr>Leaks :=
      [zeroLeak\<lparr>Leak.FunctionName := ''Unknown Function at 0x1234'', Leak.LeakSize := 5000,
         Leak.LeakCount := 1\<rparr>]\<rparr>)\<rparr>)) = [''Low''] \<and>
   generateLeakSuggestion
     (zeroLeak\<lparr>Leak.FunctionName := ''std::vector in main of Unknown Function''\<rparr>) =
     ''Enable debug symbols and rebuild with full symbol information to identify the exact source of this leak. Check for third-party libraries or dynamically loaded modules.''"
proof -
  let ?l = "zeroLeak\<lparr>Leak.FunctionName := ''Unknown Function at 0x1234'', Leak.LeakSize := 5000,
         Leak.LeakCount := 1\<rparr>"
  let ?k = "zeroLeak\<lparr>Leak.FunctionName := ''std::vector in main of Unknown Function''\<rparr>"
  have hyp: "Leaks (zeroData\<lparr>Leaks := [?l]\<rparr>) = [?l] \<and>
      Leak.FunctionName ?l = ''Unknown Function at 0x1234'' \<and>
      Leak.LeakSize ?l = 5000 \<and> Leak.LeakCount ?l = 1 \<and> \<not> IsSuspect ?l"
    by (simp add: zeroLeak_def)
  have unknown: "Contains (Leak.FunctionName ?k) ''Unknown Function''"
    by simp
  show ?thesis
    using unknown_function_leak [where d = "zeroData\<lparr>Leaks := [?l]\<rparr>" and l = ?l and k = ?k]
      hyp unknown by simp
qed

section \<open>Fragmentation analysis\<close>

text \<open>
  C3. \<open>AnalyzeFragmentation\<close> returns exactly one High issue when the fragmentation
  is greater than 80, exactly one Medium issue when it is greater than 50 and not
  greater than 80, and no issue otherwise. A fragmentation of exactly 80 gives a Medium
  issue, and one of exactly 50 gives no issue.
\<close>

theorem AnalyzeFragmentation_bands:
  "(fgt (MemoryFragmentation d) (Finite 80) \<longrightarrow>
      map Severity (AnalyzeFragmentation (Some \<lparr>data = Some d\<rparr>)) = [''High'']) \<and>
   (fgt (MemoryFragmentation d) (Finite 50) \<and> \<not> fgt (MemoryFragmentation d) (Finite 80) \<longrightarrow>
      map Severity (AnalyzeFragmentation (Some \<lparr>data = Some d\<rparr>)) = [''Medium'']) \<and>
   (\<not> fgt (MemoryFragmentation d) (Finite 50) \<longrightarrow>
      AnalyzeFragmentation (Some \<lparr>data = Some d\<rparr>) = []) \<and>
   (MemoryFragmentation d = Finite r \<longrightarrow>
      map Severity (AnalyzeFragmentation (Some \<lparr>data = Some d\<rparr>)) =
        (if 80 < r then [''High''] else if 50 < r then [''Medium''] else [])) \<and>
   (MemoryFragmentation d = Finite 80 \<longrightarrow>
      map Severity (AnalyzeFragmentation (Some \<lparr>data = Some d\<rparr>)) = [''Medium'']) \<and>
   (MemoryFragmentation d = Finite 50 \<longrightarrow>
      AnalyzeFragmentation (Some \<lparr>data = Some d\<rparr>) = [])"
proof -
  have high: "map Severity (AnalyzeFragmentation (Some \<lparr>data = Some d\<rparr>)) = [''High'']"
    if "fgt (MemoryFragmentation d) (Finite 80)"
    using that by (simp add: AnalyzeFragmentation_def)
  have medium: "map Severity (AnalyzeFragmentation (Some \<lparr>data = Some d\<rparr>)) = [''Medium'']"
    if "fgt (MemoryFragmentation d) (Finite 50)" "\<not> fgt (MemoryFragmentation d) (Finite 80)"
    using that by (simp add: AnalyzeFragmentation_def)
  have none: "AnalyzeFragmentation (Some \<lparr>data = Some d\<rparr>) = []"
    if "\<not> fgt (MemoryFragmentation d) (Finite 50)"
  proof -
    have "\<not> fgt (MemoryFragmentation d) (Finite 80)"
      using that by (cases "MemoryFragmentation d") auto
    with that show ?thesis by (simp add: AnalyzeFragmentation_def)
  qed
  have finite: "map Severity (AnalyzeFragmentation (Some \<lparr>data = Some d\<rparr>)) =
        (if 80 < r then [''High''] else if 50 < r then [''Medium''] else [])"
    if "MemoryFragmentation d = Finite r" for r
    using that high medium none by simp
  show ?thesis
    using high medium none finite [of r] finite [of 80] finite [of 50] by simp
qed

theorem AnalyzeFragmentation_bands_witness:
  "map Severity (AnalyzeFragmentation
      (Some \<lparr>data = Some (zeroData\<lparr>MemoryFragmentation := Finite 80\<rparr>)\<rparr>)) = [''Medium''] \<and>
   AnalyzeFragmentation
      (Some \<lparr>data = Some (zeroData\<lparr>MemoryFragmentation := Finite 50\<rparr>)\<rparr>) = [] \<and>
   map Severity (AnalyzeFragmentation
      (Some \<lparr>data = Some (zeroData\<lparr>MemoryFragmentation := Finite (801 / 10)\<rparr>)\<rparr>)) =
      [''High'']"
  using AnalyzeFragmentation_bands [of "zeroData\<lparr>MemoryFragmentation := Finite 80\<rparr>" 80]
    AnalyzeFragmentation_bands [of "zeroData\<lparr>MemoryFragmentation := Finite 50\<rparr>" 50]
    AnalyzeFragmentation_bands
      [of "zeroData\<lparr>MemoryFragmentation := Finite (801 / 10)\<rparr>" "801 / 10"]
  by simp

section \<open>Large allocations\<close>

lemma AnalyzeLargeAllocations_data:
  "AnalyzeLargeAllocations (Some \<lparr>data = Some d\<rparr>) =
     map largeAllocationIssue
       (filter (\<lambda>fn. fgt (Function.AverageSize fn) (Finite 10000) \<or> 50000 < Function.MaxSize fn)
          (Functions d))"
  by (simp add: AnalyzeLargeAllocations_def largeAllocationLoop_eq)

text \<open>
  C6. \<open>AnalyzeLargeAllocations\<close> returns the issues of the functions whose average
  size is greater than 10000 or whose maximal size is greater than 50000, one for each
  and in the order of the list of functions. The severity of such an issue is High when
  the maximal size is greater than 100000, and Medium otherwise.
\<close>

theorem AnalyzeLargeAllocations_rule:
  "AnalyzeLargeAllocations (Some \<lparr>data = Some d\<rparr>) =
     map largeAllocationIssue
       (filter (\<lambda>fn. fgt (Function.AverageSize fn) (Finite 10000) \<or> 50000 < Function.MaxSize fn)
          (Functions d)) \<and>
   (Severity (largeAllocationIssue fn) = ''High'' \<longleftrightarrow> 100000 < Function.MaxSize fn) \<and>
   (Severity (largeAllocationIssue fn) = ''Medium'' \<longleftrightarrow> \<not> 100000 < Function.MaxSize fn) \<and>
   MemoryIssue.FunctionName (largeAllocationIssue fn) = Function.FunctionName fn \<and>
   MemoryIssue.FileName (largeAllocationIssue fn) = Function.FileName fn \<and>
   MemoryIssue.LineNumber (largeAllocationIssue fn) = Function.LineNumber fn"
  by (simp add: AnalyzeLargeAllocations_data largeAllocationIssue_def)

theorem AnalyzeLargeAllocations_rule_witness:
  "map (\<lambda>issue. (MemoryIssue.FunctionName issue, Severity issue))
     (AnalyzeLargeAllocations (Some \<lparr>data = Some (zeroData\<lparr>Functions :=
        [zeroFunction\<lparr>Function.FunctionName := ''a'', Function.AverageSize := Finite 15000,
           Function.MaxSize := 120000, Function.AllocationCount := 3\<rparr>,
         zeroFunction\<lparr>Function.FunctionName := ''b'', Function.AverageSize := Finite 10000,
           Function.MaxSize := 50000\<rparr>,
         zeroFunction\<lparr>Function.FunctionName := ''c'', Function.AverageSize := Finite 10,
           Function.MaxSize := 50001\<rparr>]\<rparr>)\<rparr>)) =
   [(''a'', ''High''), (''c'', ''Medium'')]"
proof -
  let ?a = "zeroFunction\<lparr>Function.FunctionName := ''a'', Function.AverageSize := Finite 15000,
           Function.MaxSize := 120000, Function.AllocationCount := 3\<rparr>"
  let ?b = "zeroFunction\<lparr>Function.FunctionName := ''b'', Function.AverageSize := Finite 10000,
           Function.MaxSize := 50000\<rparr>"
  let ?c = "zeroFunction\<lparr>Function.FunctionName := ''c'', Function.AverageSize := Finite 10,
           Function.MaxSize := 50001\<rparr>"
  show ?thesis
    using AnalyzeLargeAllocations_rule [of "zeroData\<lparr>Functions := [?a, ?b, ?c]\<rparr>" ?a]
      AnalyzeLargeAllocations_rule [of "zeroData\<lparr>Functions := [?a, ?b, ?c]\<rparr>" ?c]
    by (simp add: zeroFunction_def)
qed

section \<open>Summary\<close>

lemma fmt_f_2_zero: "fmt_f 2 (Finite 0) = ''0.00''"
  by (simp add: fmt_f_def roundHalfEven_def digits.simps)

lemma fmt_d_zero: "fmt_d 0 = ''0''"
  by (simp add: fmt_d_def digits.simps)

lemma float64_of_int_zero: "float64_of_int 0 = Finite 0"
  by (simp add: float64_of_int_def round64_zero)

lemma leakPercentage_nonpositive:
  "MemProData.TotalSize d \<le> 0 \<Longrightarrow> leakPercentage d = Finite 0"
  by (simp add: leakPercentage_def)

lemma leakPercentage_positive:
  "0 < MemProData.TotalSize d \<Longrightarrow>
   leakPercentage d =
     fmul (fdiv (float64_of_int (MemProData.LeakSize d)) (float64_of_int (MemProData.TotalSize d)))
       (Finite 100)"
  by (simp add: leakPercentage_def)

text \<open>
  C7, amended. When the total size is zero, the leak percentage is 0 and the summary
  reports \<open>Leak Percentage: 0.00%\<close>. The division is made only with a positive
  total size, so nothing is divided by zero. When the total size is positive, the leak
  percentage is \<open>float64(LeakSize) / float64(TotalSize) * 100\<close> as binary64
  arithmetic computes it, each conversion, the division and the multiplication rounded
  to the nearest binary64 number. For sizes in the range of \<open>int64\<close> this is a finite
  number that differs from the leaked bytes divided by the total bytes times 100 by at
  most the fraction \<open>2 ^ -50\<close> of that value; it need not be equal to it. The summary
  prints the leak percentage after \<open>Leak Percentage:\<close>, on the line that follows the
  leak size.
\<close>

theorem GetSummary_leak_percentage:
  "(MemProData.TotalSize d = 0 \<longrightarrow>
      leakPercentage d = Finite 0 \<and>
      GetSummary (Some \<lparr>data = Some d\<rparr>) =
        ''Memory Analysis Summary\<newline>======================\<newline>Session: '' @ SessionName d @
        ''\<newline>Total Allocations: '' @ fmt_d (TotalAllocations d) @
        ''\<newline>Total Size: 0 bytes (0.00 MB)\<newline>Leak Count: '' @ fmt_d (MemProData.LeakCount d) @
        ''\<newline>Leak Size: '' @ fmt_d (MemProData.LeakSize d) @ '' bytes ('' @
        fmt_f 2 (fdiv (fdiv (float64_of_int (MemProData.LeakSize d)) (Finite 1024)) (Finite 1024)) @
        '' MB)\<newline>Leak Percentage: 0.00%\<newline>Memory Fragmentation: '' @
        fmt_f 2 (MemoryFragmentation d) @ ''%\<newline>\<newline>Critical Findings:\<newline>'' @
        (if fgt (MemoryFragmentation d) (Finite 80)
         then ''- HIGH: Severe memory fragmentation detected\<newline>'' else []) @
        (if 0 < countSuspectLeaks (Leaks d) 0
         then ''- '' @ fmt_d (countSuspectLeaks (Leaks d) 0) @
              '' suspect leak locations identified\<newline>''
         else [])) \<and>
   (MemProData.TotalSize d \<le> 0 \<longrightarrow> leakPercentage d = Finite 0) \<and>
   (0 < MemProData.TotalSize d \<longrightarrow>
      leakPercentage d =
        fmul (fdiv (float64_of_int (MemProData.LeakSize d))
                (float64_of_int (MemProData.TotalSize d)))
          (Finite 100)) \<and>
   (0 < MemProData.TotalSize d \<and> MemProData.TotalSize d < 2 ^ 63 \<and>
    \<bar>MemProData.LeakSize d\<bar> \<le> 2 ^ 63 \<longrightarrow>
      (\<exists>p. leakPercentage d = Finite p \<and>
         \<bar>p - real_of_int (MemProData.LeakSize d) / real_of_int (MemProData.TotalSize d) * 100\<bar> \<le>
         \<bar>real_of_int (MemProData.LeakSize d) / real_of_int (MemProData.TotalSize d) * 100\<bar> /
           2 ^ 50)) \<and>
   (\<exists>rest. GetSummary (Some \<lparr>data = Some d\<rparr>) =
      ''Memory Analysis Summary\<newline>======================\<newline>Session: '' @ SessionName d @
      ''\<newline>Total Allocations: '' @ fmt_d (TotalAllocations d) @
      ''\<newline>Total Size: '' @ fmt_d (MemProData.TotalSize d) @ '' bytes ('' @
      fmt_f 2 (fdiv (fdiv (float64_of_int (MemProData.TotalSize d)) (Finite 1024)) (Finite 1024)) @
      '' MB)\<newline>Leak Count: '' @ fmt_d (MemProData.LeakCount d) @
      ''\<newline>Leak Size: '' @ fmt_d (MemProData.LeakSize d) @ '' bytes ('' @
      fmt_f 2 (fdiv (fdiv (float64_of_int (MemProData.LeakSize d)) (Finite 1024)) (Finite 1024)) @
      '' MB)\<newline>Leak Percentage: '' @ fmt_f 2 (leakPercentage d) @ ''%\<newline>'' @ rest)"
proof -
  have zero: "GetSummary (Some \<lparr>data = Some d\<rparr>) =
        ''Memory Analysis Summary\<newline>======================\<newline>Session: '' @ SessionName d @
        ''\<newline>Total Allocations: '' @ fmt_d (TotalAllocations d) @
        ''\<newline>Total Size: 0 bytes (0.00 MB)\<newline>Leak Count: '' @ fmt_d (MemProData.LeakCount d) @
        ''\<newline>Leak Size: '' @ fmt_d (MemProData.LeakSize d) @ '' bytes ('' @
        fmt_f 2 (fdiv (fdiv (float64_of_int (MemProData.LeakSize d)) (Finite 1024)) (Finite 1024)) @
        '' MB)\<newline>Leak Percentage: 0.00%\<newline>Memory Fragmentation: '' @
        fmt_f 2 (MemoryFragmentation d) @ ''%\<newline>\<newline>Critical Findings:\<newline>'' @
        (if fgt (MemoryFragmentation d) (Finite 80)
         then ''- HIGH: Severe memory fragmentation detected\<newline>'' else []) @
        (if 0 < countSuspectLeaks (Leaks d) 0
         then ''- '' @ fmt_d (countSuspectLeaks (Leaks d) 0) @
              '' suspect leak locations identified\<newline>''
         else [])"
    if "MemProData.TotalSize d = 0"
  proof -
    have "fmt_f 2 (fdiv (fdiv (float64_of_int (MemProData.TotalSize d)) (Finite 1024)) (Finite 1024)) =
        ''0.00''"
      using that by (simp add: float64_of_int_zero round64_zero fmt_f_2_zero)
    moreover have "fmt_f 2 (leakPercentage d) = ''0.00''"
      using that by (simp add: leakPercentage_nonpositive fmt_f_2_zero)
    moreover have "\<not> fgt (leakPercentage d) (Finite 50)"
      using that by (simp add: leakPercentage_nonpositive)
    ultimately show ?thesis
      using that by (simp add: GetSummary_def fmt_d_zero)
  qed
  have shape: "\<exists>rest. GetSummary (Some \<lparr>data = Some d\<rparr>) =
      ''Memory Analysis Summary\<newline>======================\<newline>Session: '' @ SessionName d @
      ''\<newline>Total Allocations: '' @ fmt_d (TotalAllocations d) @
      ''\<newline>Total Size: '' @ fmt_d (MemProData.TotalSize d) @ '' bytes ('' @
      fmt_f 2 (fdiv (fdiv (float64_of_int (MemProData.TotalSize d)) (Finite 1024)) (Finite 1024)) @
      '' MB)\<newline>Leak Count: '' @ fmt_d (MemProData.LeakCount d) @
      ''\<newline>Leak Size: '' @ fmt_d (MemProData.LeakSize d) @ '' bytes ('' @
      fmt_f 2 (fdiv (fdiv (float64_of_int (MemProData.LeakSize d)) (Finite 1024)) (Finite 1024)) @
      '' MB)\<newline>Leak Percentage: '' @ fmt_f 2 (leakPercentage d) @ ''%\<newline>'' @ rest"
    by (simp add: GetSummary_def)
  have bound: "\<exists>p. leakPercentage d = Finite p \<and>
         \<bar>p - real_of_int (MemProData.LeakSize d) / real_of_int (MemProData.TotalSize d) * 100\<bar> \<le>
         \<bar>real_of_int (MemProData.LeakSize d) / real_of_int (MemProData.TotalSize d) * 100\<bar> /
           2 ^ 50"
    if "0 < MemProData.TotalSize d" "MemProData.TotalSize d < 2 ^ 63"
      "\<bar>MemProData.LeakSize d\<bar> \<le> 2 ^ 63"
    using percentage_error [OF that] leakPercentage_positive [OF that(1)] by simp
  have "MemProData.TotalSize d = 0 \<longrightarrow> leakPercentage d = Finite 0"
    by (simp add: leakPercentage_nonpositive)
  with zero shape bound leakPercentage_nonpositive [of d] leakPercentage_positive [of d]
  show ?thesis by blast
qed

theorem GetSummary_leak_percentage_witness:
  "GetSummary (Some \<lparr>data = Some (zeroData\<lparr>SessionName := ''s'', LeakSize := 7\<rparr>)\<rparr>) =
     ''Memory Analysis Summary\<newline>======================\<newline>Session: s\<newline>Total Allocations: 0\<newline>Total Size: 0 bytes (0.00 MB)\<newline>Leak Count: 0\<newline>Leak Size: 7 bytes (0.00 MB)\<newline>Leak Percentage: 0.00%\<newline>Memory Fragmentation: 0.00%\<newline>\<newline>Critical Findings:\<newline>'' \<and>
   0 < MemProData.TotalSize (zeroData\<lparr>TotalSize := 1000000, LeakSize := 600000\<rparr>) \<and>
   MemProData.TotalSize (zeroData\<lparr>TotalSize := 1000000, LeakSize := 600000\<rparr>) < 2 ^ 63 \<and>
   \<bar>MemProData.LeakSize (zeroData\<lparr>TotalSize := 1000000, LeakSize := 600000\<rparr>)\<bar> \<le> 2 ^ 63 \<and>
   leakPercentage (zeroData\<lparr>TotalSize := 1000000, LeakSize := 600000\<rparr>) = Finite 60"
proof -
  let ?z = "zeroData\<lparr>SessionName := ''s'', LeakSize := 7\<rparr>"
  let ?p = "zeroData\<lparr>TotalSize := 1000000, LeakSize := 600000\<rparr>"
  have z: "MemProData.TotalSize ?z = 0" by (simp add: zeroData_def)
  have p: "0 < MemProData.TotalSize ?p \<and> MemProData.TotalSize ?p < 2 ^ 63 \<and>
      \<bar>MemProData.LeakSize ?p\<bar> \<le> 2 ^ 63"
    by simp
  have small: "fmt_f 2 (fdiv (fdiv (float64_of_int 7) (Finite 1024)) (Finite 1024)) = ''0.00''"
    by (simp add: fmt_f_def roundHalfEven_def digits.simps float64_of_int_def round64_def
        binade_def compute_bitlen Let_def)
  have seven: "fmt_d 7 = ''7''" by (simp add: fmt_d_def digits.simps)
  have sixty: "fmul (fdiv (float64_of_int 600000) (float64_of_int 1000000)) (Finite 100) = Finite 60"
    by (simp add: float64_of_int_def round64_def binade_def roundHalfEven_def compute_bitlen
        Let_def)
  show ?thesis
    using GetSummary_leak_percentage [of ?z] z GetSummary_leak_percentage [of ?p] p
    by (simp add: zeroData_def small seven sixty fmt_d_zero fmt_f_2_zero)
qed

text \<open>
  The leak percentage is not always the leaked bytes divided by the total bytes times
  100: for 23 leaked bytes of 160, that value is 14.375, which would be printed as
  \<open>14.38\<close>, while the rounded quotient times 100 rounds to a number just below it,
  and the summary reports \<open>14.37%\<close>.
\<close>

theorem GetSummary_leak_percentage_counterexample:
  "0 < MemProData.TotalSize (zeroData\<lparr>TotalSize := 160, LeakSize := 23\<rparr>) \<and>
   leakPercentage (zeroData\<lparr>TotalSize := 160, LeakSize := 23\<rparr>) =
     Finite (8092405580431359 / 562949953421312) \<and>
   leakPercentage (zeroData\<lparr>TotalSize := 160, LeakSize := 23\<rparr>) \<noteq>
     Finite (real_of_int (MemProData.LeakSize (zeroData\<lparr>TotalSize := 160, LeakSize := 23\<rparr>)) /
             real_of_int (MemProData.TotalSize (zeroData\<lparr>TotalSize := 160, LeakSize := 23\<rparr>)) *
             100) \<and>
   fmt_f 2 (Finite (23 / 160 * 100)) = ''14.38'' \<and>
   GetSummary (Some \<lparr>data = Some (zeroData\<lparr>TotalSize := 160, LeakSize := 23\<rparr>)\<rparr>) =
     ''Memory Analysis Summary\<newline>======================\<newline>Session: \<newline>Total Allocations: 0\<newline>Total Size: 160 bytes (0.00 MB)\<newline>Leak Count: 0\<newline>Leak Size: 23 bytes (0.00 MB)\<newline>Leak Percentage: 14.37%\<newline>Memory Fragmentation: 0.00%\<newline>\<newline>Critical Findings:\<newline>''"
proof -
  let ?d = "zeroData\<lparr>TotalSize := 160, LeakSize := 23\<rparr>"
  have pct: "leakPercentage ?d = Finite (8092405580431359 / 562949953421312)"
    by (simp add: leakPercentage_def float64_of_int_def round64_def binade_def roundHalfEven_def
        compute_bitlen Let_def)
  have printed: "fmt_f 2 (Finite (8092405580431359 / 562949953421312)) = ''14.37''"
    by (simp add: fmt_f_def roundHalfEven_def digits.simps)
  have exact: "fmt_f 2 (Finite (23 / 160 * 100)) = ''14.38''"
    by (simp add: fmt_f_def roundHalfEven_def digits.simps)
  have total: "fmt_f 2 (fdiv (fdiv (float64_of_int 160) (Finite 1024)) (Finite 1024)) = ''0.00''"
    by (simp add: fmt_f_def roundHalfEven_def digits.simps float64_of_int_def round64_def
        binade_def compute_bitlen Let_def)
  have leaked: "fmt_f 2 (fdiv (fdiv (float64_of_int 23) (Finite 1024)) (Finite 1024)) = ''0.00''"
    by (simp add: fmt_f_def roundHalfEven_def digits.simps float64_of_int_def round64_def
        binade_def compute_bitlen Let_def)
  have numbers: "fmt_d 160 = ''160''" "fmt_d 23 = ''23''"
    by (simp_all add: fmt_d_def digits.simps)
  have summary: "GetSummary (Some \<lparr>data = Some ?d\<rparr>) =
     ''Memory Analysis Summary\<newline>======================\<newline>Session: \<newline>Total Allocations: 0\<newline>Total Size: 160 bytes (0.00 MB)\<newline>Leak Count: 0\<newline>Leak Size: 23 bytes (0.00 MB)\<newline>Leak Percentage: 14.37%\<newline>Memory Fragmentation: 0.00%\<newline>\<newline>Critical Findings:\<newline>''"
    unfolding GetSummary_def
    by (simp add: zeroData_def pct [unfolded zeroData_def, simplified] printed total leaked
        numbers fmt_d_zero fmt_f_2_zero)
  show ?thesis using pct exact summary by simp
qed

section \<open>Top leakers\<close>

lemma leakLess_asym: "leakLess a b \<Longrightarrow> \<not> leakLess b a"
  by (simp add: leakLess_def)

lemma leakLess_ntrans: "\<not> leakLess a b \<Longrightarrow> \<not> leakLess b c \<Longrightarrow> \<not> leakLess a c"
  by (simp add: leakLess_def)

lemma sorted_leaks:
  "sorted_wrt (\<lambda>a b. Leak.LeakSize b \<le> Leak.LeakSize a) (sort_Slice leakLess leaks)"
proof -
  have "sorted_wrt (\<lambda>a b. \<not> leakLess b a) (sort_Slice leakLess leaks)"
    by (rule sorted_sort_Slice [OF leakLess_asym leakLess_ntrans])
  then show ?thesis by (simp add: leakLess_def not_less)
qed

lemma GetTopLeakers_data:
  "GetTopLeakers (Some \<lparr>data = Some d\<rparr>) n =
     Some (''Top '' @ fmt_d (min n (int (length (Leaks d)))) @ '' Memory Leakers:\<newline>'' @
           ''====================\<newline>\<newline>'' @
           concat (map (\<lambda>k. writeLeaker (int k) (sort_Slice leakLess (Leaks d) ! k))
             [0..<nat (min n (int (length (Leaks d))))]))"
proof -
  let ?leaks = "sort_Slice leakLess (Leaks d)"
  let ?m = "min n (int (length (Leaks d)))"
  have m: "(if int (length ?leaks) < n then int (length ?leaks) else n) = ?m"
    by (simp add: length_sort_Slice min_def)
  have "?m \<le> int (length ?leaks)" by (simp add: length_sort_Slice)
  then have "writeLeakers ?leaks 0 ?m
       (''Top '' @ fmt_d ?m @ '' Memory Leakers:\<newline>'' @ ''====================\<newline>\<newline>'') =
     Some ((''Top '' @ fmt_d ?m @ '' Memory Leakers:\<newline>'' @ ''====================\<newline>\<newline>'') @
       concat (map (\<lambda>k. writeLeaker (int k) (?leaks ! k)) [nat 0..<nat ?m]))"
    by (intro writeLeakers_eq) simp_all
  then show ?thesis
    unfolding GetTopLeakers_def by (simp add: m Let_def del: append_assoc)
qed

text \<open>
  C8. When \<open>n\<close> is greater than the number of leaks, \<open>GetTopLeakers\<close> returns
  without a panic a report whose header states the number of leaks and that has one
  entry for each leak, in the order of the sorted leaks: a permutation of the leaks in
  which the leaked bytes never increase.
\<close>

theorem GetTopLeakers_clamps:
  "int (length (Leaks d)) < n \<longrightarrow>
     GetTopLeakers (Some \<lparr>data = Some d\<rparr>) n =
       Some (''Top '' @ fmt_d (int (length (Leaks d))) @ '' Memory Leakers:\<newline>'' @
             ''====================\<newline>\<newline>'' @
             concat (map (\<lambda>k. writeLeaker (int k) (sort_Slice leakLess (Leaks d) ! k))
               [0..<length (Leaks d)])) \<and>
     mset (sort_Slice leakLess (Leaks d)) = mset (Leaks d) \<and>
     sorted_wrt (\<lambda>a b. Leak.LeakSize b \<le> Leak.LeakSize a) (sort_Slice leakLess (Leaks d))"
proof
  assume big: "int (length (Leaks d)) < n"
  then have "min n (int (length (Leaks d))) = int (length (Leaks d))" by simp
  then show "GetTopLeakers (Some \<lparr>data = Some d\<rparr>) n =
       Some (''Top '' @ fmt_d (int (length (Leaks d))) @ '' Memory Leakers:\<newline>'' @
             ''====================\<newline>\<newline>'' @
             concat (map (\<lambda>k. writeLeaker (int k) (sort_Slice leakLess (Leaks d) ! k))
               [0..<length (Leaks d)])) \<and>
     mset (sort_Slice leakLess (Leaks d)) = mset (Leaks d) \<and>
     sorted_wrt (\<lambda>a b. Leak.LeakSize b \<le> Leak.LeakSize a) (sort_Slice leakLess (Leaks d))"
    using GetTopLeakers_data [of d n] mset_sort_Slice [of leakLess "Leaks d"]
      sorted_leaks [of "Leaks d"] by simp
qed

theorem GetTopLeakers_clamps_witness:
  "int (length (Leaks (zeroData\<lparr>Leaks :=
      [zeroLeak\<lparr>Leak.LeakSize := 5000, Leak.LeakCount := 1\<rparr>,
       zeroLeak\<lparr>Leak.FunctionName := ''f'', Leak.FileName := ''a.c'',
         Leak.LeakSize := 60000, Leak.LeakCount := 2\<rparr>]\<rparr>))) < 5 \<and>
   GetTopLeakers (Some \<lparr>data = Some (zeroData\<lparr>Leaks :=
      [zeroLeak\<lparr>Leak.LeakSize := 5000, Leak.LeakCount := 1\<rparr>,
       zeroLeak\<lparr>Leak.FunctionName := ''f'', Leak.FileName := ''a.c'',
         Leak.LeakSize := 60000, Leak.LeakCount := 2\<rparr>]\<rparr>)\<rparr>) 5 =
     Some ''Top 2 Memory Leakers:\<newline>====================\<newline>\<newline>1. f\<newline>   Leak Size: 60000 bytes (58.59 KB)\<newline>   Leak Count: 2 allocations\<newline>   Leak Score: 0.00\<newline>   Suspect: false\<newline>   Location: a.c:0\<newline>\<newline>2. \<newline>   Leak Size: 5000 bytes (4.88 KB)\<newline>   Leak Count: 1 allocations\<newline>   Leak Score: 0.00\<newline>   Suspect: false\<newline>\<newline>''"
proof -
  let ?a = "zeroLeak\<lparr>Leak.LeakSize := 5000, Leak.LeakCount := 1\<rparr>"
  let ?b = "zeroLeak\<lparr>Leak.FunctionName := ''f'', Leak.FileName := ''a.c'',
         Leak.LeakSize := 60000, Leak.LeakCount := 2\<rparr>"
  let ?d = "zeroData\<lparr>Leaks := [?a, ?b]\<rparr>"
  have len: "int (length (Leaks ?d)) < 5" by simp
  have srt: "sort_Slice leakLess (Leaks ?d) = [?b, ?a]"
    by (simp add: sort_Slice_def leakLess_def zeroLeak_def)
  have upt: "[0..<length (Leaks ?d)] = [0, 1]"
    by (simp add: upt_rec)
  have a: "writeLeaker 1 ?a = ''2. \<newline>   Leak Size: 5000 bytes (4.88 KB)\<newline>   Leak Count: 1 allocations\<newline>   Leak Score: 0.00\<newline>   Suspect: false\<newline>\<newline>''"
    by (simp add: writeLeaker_def zeroLeak_def fmt_d_def fmt_v_def fmt_f_def digits.simps
        roundHalfEven_def float64_of_int_def round64_def binade_def compute_bitlen Let_def)
  have b: "writeLeaker 0 ?b = ''1. f\<newline>   Leak Size: 60000 bytes (58.59 KB)\<newline>   Leak Count: 2 allocations\<newline>   Leak Score: 0.00\<newline>   Suspect: false\<newline>   Location: a.c:0\<newline>\<newline>''"
    by (simp add: writeLeaker_def zeroLeak_def fmt_d_def fmt_v_def fmt_f_def digits.simps
        roundHalfEven_def float64_of_int_def round64_def binade_def compute_bitlen Let_def)
  have two: "fmt_d 2 = ''2''" by (simp add: fmt_d_def digits.simps)
  show ?thesis
    using GetTopLeakers_clamps [of ?d 5] len
    unfolding srt upt by (simp add: a b two)
qed

text \<open>
  C4, amended. When \<open>n\<close> is zero or negative, \<open>GetTopLeakers\<close> returns without a
  panic a report that is its header alone, with no entry for a leak. The header states
  \<open>n\<close> as it was given: \<open>Top 0\<close> when \<open>n\<close> is zero, and the negative number
  otherwise.
\<close>

theorem GetTopLeakers_nonpositive:
  "(n \<le> 0 \<longrightarrow>
      GetTopLeakers (Some \<lparr>data = Some d\<rparr>) n =
        Some (''Top '' @ fmt_d n @ '' Memory Leakers:\<newline>====================\<newline>\<newline>'')) \<and>
   GetTopLeakers (Some \<lparr>data = Some d\<rparr>) 0 =
     Some ''Top 0 Memory Leakers:\<newline>====================\<newline>\<newline>''"
proof -
  have "GetTopLeakers (Some \<lparr>data = Some d\<rparr>) n =
        Some (''Top '' @ fmt_d n @ '' Memory Leakers:\<newline>====================\<newline>\<newline>'')"
    if "n \<le> 0" for n
  proof -
    have "min n (int (length (Leaks d))) = n" using that by simp
    then show ?thesis using GetTopLeakers_data [of d n] that by simp
  qed
  from this this [of 0] show ?thesis by (simp add: fmt_d_def digits.simps)
qed

theorem GetTopLeakers_nonpositive_witness:
  "(- 3 :: int) \<le> 0 \<and>
   GetTopLeakers (Some \<lparr>data = Some (zeroData\<lparr>Leaks := [zeroLeak\<lparr>Leak.LeakSize := 5000\<rparr>]\<rparr>)\<rparr>) (- 3) =
     Some ''Top -3 Memory Leakers:\<newline>====================\<newline>\<newline>''"
  using GetTopLeakers_nonpositive
    [of "- 3" "zeroData\<lparr>Leaks := [zeroLeak\<lparr>Leak.LeakSize := 5000\<rparr>]\<rparr>"]
  by (simp add: fmt_d_def digits.simps)

text \<open>
  The header does not state a count of zero for every \<open>n\<close> below zero: for
  \<open>n = -1\<close> it reads \<open>Top -1\<close>.
\<close>

theorem GetTopLeakers_nonpositive_counterexample:
  "GetTopLeakers (Some \<lparr>data = Some (zeroData\<lparr>Leaks := [zeroLeak\<lparr>Leak.LeakSize := 5000\<rparr>]\<rparr>)\<rparr>) (- 1) =
     Some ''Top -1 Memory Leakers:\<newline>====================\<newline>\<newline>'' \<and>
   GetTopLeakers (Some \<lparr>data = Some (zeroData\<lparr>Leaks := [zeroLeak\<lparr>Leak.LeakSize := 5000\<rparr>]\<rparr>)\<rparr>) (- 1) \<noteq>
     Some ''Top 0 Memory Leakers:\<newline>====================\<newline>\<newline>''"
  by (simp add: GetTopLeakers_def writeLeakers.simps sort_Slice_def zeroData_def
      fmt_d_def digits.simps)

section \<open>Missing data\<close>

text \<open>
  C10. With no data, which is a \<open>nil\<close> analyzer or an analyzer whose data is
  \<open>nil\<close>, the three analyses return the empty list, and the summary and the top
  leakers return the string \<open>Error: No data available for analysis\<close>, the latter
  without a panic.
\<close>

theorem no_data:
  "AnalyzeLeaks None = [] \<and> AnalyzeLeaks (Some \<lparr>data = None\<rparr>) = [] \<and>
   AnalyzeFragmentation None = [] \<and> AnalyzeFragmentation (Some \<lparr>data = None\<rparr>) = [] \<and>
   AnalyzeLargeAllocations None = [] \<and> AnalyzeLargeAllocations (Some \<lparr>data = None\<rparr>) = [] \<and>
   GetSummary None = ''Error: No data available for analysis'' \<and>
   GetSummary (Some \<lparr>data = None\<rparr>) = ''Error: No data available for analysis'' \<and>
   GetTopLeakers None n = Some ''Error: No data available for analysis'' \<and>
   GetTopLeakers (Some \<lparr>data = None\<rparr>) n = Some ''Error: No data available for analysis''"
  by (simp add: AnalyzeLeaks_def AnalyzeFragmentation_def AnalyzeLargeAllocations_def
      GetSummary_def GetTopLeakers_def)

end
